theory Spec2Isabelle
  imports Main "HOL-Library.Sublist"
begin

section \<open>JavaScript values as the walker reads them\<close>

text \<open>
  The linter of \<^verbatim>\<open>tools/dusty/index.js\<close> walks whatever object the parser returns by
  inspecting its fields dynamically (\<^verbatim>\<open>for (const key in node)\<close>), so a syntax tree is
  modelled as a plain JavaScript value: an object is the list of its own enumerable
  properties in enumeration order (keys are distinct in a real object; lookups take the
  first entry), an array is the list of its elements.  Numbers are integers (positions and
  lengths); functions, symbols and holes in arrays do not occur in a parsed tree and are
  outside the model.
\<close>

datatype jsval =
    Undefined
  | Null
  | Bool bool
  | Num int
  | Str string
  | Arr "jsval list"
  | Obj "(string \<times> jsval) list"

datatype js_error =
    TypeError
  | RangeError
  | SyntaxError string
  | SystemError string

text \<open>JavaScript truthiness, as used by \<^verbatim>\<open>!node\<close>, \<^verbatim>\<open>child && ...\<close> and \<^verbatim>\<open>c.type\<close>.\<close>

fun truthy :: "jsval \<Rightarrow> bool" where
  "truthy Undefined = False"
| "truthy Null = False"
| "truthy (Bool b) = b"
| "truthy (Num n) = (n \<noteq> 0)"
| "truthy (Str s) = (s \<noteq> [])"
| "truthy (Arr xs) = True"
| "truthy (Obj fs) = True"

text \<open>\<^verbatim>\<open>typeof v === 'object'\<close>: true of \<^verbatim>\<open>null\<close>, of arrays and of objects.\<close>

fun typeof_object :: "jsval \<Rightarrow> bool" where
  "typeof_object Null = True"
| "typeof_object (Arr xs) = True"
| "typeof_object (Obj fs) = True"
| "typeof_object v = False"

text \<open>
  Reading a named property \<^verbatim>\<open>v.k\<close> of a value that is neither \<^verbatim>\<open>undefined\<close> nor
  \<^verbatim>\<open>null\<close>, for the names the walker reads (\<^verbatim>\<open>type\<close>, \<^verbatim>\<open>source\<close>, \<^verbatim>\<open>value\<close>,
  \<^verbatim>\<open>callee\<close>, \<^verbatim>\<open>name\<close>, \<^verbatim>\<open>arguments\<close>, \<^verbatim>\<open>length\<close>): an object yields its own
  property or \<^verbatim>\<open>undefined\<close>; arrays and strings have a \<^verbatim>\<open>length\<close> and none of the other
  names; booleans and numbers have none of them.
\<close>

fun read_prop :: "jsval \<Rightarrow> string \<Rightarrow> jsval" where
  "read_prop (Obj fs) k = (case map_of fs k of Some v \<Rightarrow> v | None \<Rightarrow> Undefined)"
| "read_prop (Arr xs) k = (if k = ''length'' then Num (int (length xs)) else Undefined)"
| "read_prop (Str s) k = (if k = ''length'' then Num (int (length s)) else Undefined)"
| "read_prop v k = Undefined"

text \<open>
  The same read where the receiver may be \<^verbatim>\<open>undefined\<close> or \<^verbatim>\<open>null\<close>: JavaScript
  throws a TypeError there.
\<close>

fun get :: "jsval \<Rightarrow> string \<Rightarrow> js_error + jsval" where
  "get Undefined k = Inl TypeError"
| "get Null k = Inl TypeError"
| "get v k = Inr (read_prop v k)"

text \<open>\<^verbatim>\<open>v[0]\<close> on a value that is neither \<^verbatim>\<open>undefined\<close> nor \<^verbatim>\<open>null\<close>.\<close>

fun index0 :: "jsval \<Rightarrow> jsval" where
  "index0 (Arr []) = Undefined"
| "index0 (Arr (x # xs)) = x"
| "index0 (Str []) = Undefined"
| "index0 (Str (c # s)) = Str [c]"
| "index0 (Obj fs) = (case map_of fs ''0'' of Some v \<Rightarrow> v | None \<Rightarrow> Undefined)"
| "index0 v = Undefined"

text \<open>
  The comparison \<^verbatim>\<open>v > 0\<close> on the value read as a \<^verbatim>\<open>length\<close>.  Arrays and strings
  always report a number, but an object's own \<^verbatim>\<open>length\<close> may hold anything, and
  JavaScript converts it to a number first.

  A string converts by the grammar of numeric strings: white space around it is dropped;
  the empty string is 0; \<^verbatim>\<open>Infinity\<close> with an optional sign, a decimal numeral with an
  optional sign, fraction and exponent, and an unsigned numeral with the prefix
  \<^verbatim>\<open>0x\<close>, \<^verbatim>\<open>0o\<close> or \<^verbatim>\<open>0b\<close> have their value; anything else is NaN, which is not
  greater than 0.  A decimal numeral is rounded to the nearest double, so that it is
  greater than 0 exactly when its value is above half the least positive double, which is
  \<open>2 ^ 1075\<close> to the minus one.  Characters are read as code units below 256; an engine
  may round a numeral of more than twenty significant digits from either of two
  neighbours, and the model takes its exact value.
\<close>

definition is_space :: "char \<Rightarrow> bool" where
  "is_space c \<longleftrightarrow>
     c \<in> set [CHR 0x09, CHR 0x0A, CHR 0x0B, CHR 0x0C, CHR 0x0D, CHR 0x20, CHR 0xA0]"

definition trim :: "string \<Rightarrow> string" where
  "trim s = rev (dropWhile is_space (rev (dropWhile is_space s)))"

definition is_digit :: "string \<Rightarrow> char \<Rightarrow> bool" where
  "is_digit digits c \<longleftrightarrow> c \<in> set digits"

definition numeral_value :: "string \<Rightarrow> int" where
  "numeral_value ds = foldl (\<lambda>a c. 10 * a + (of_char c - 48)) 0 ds"

definition signed_integer :: "string \<Rightarrow> int option" where
  "signed_integer s =
     (let ds = (case s of c # t \<Rightarrow> if c = CHR ''+'' \<or> c = CHR ''-'' then t else s | [] \<Rightarrow> s) in
      if ds = [] \<or> \<not> list_all (is_digit ''0123456789'') ds then None
      else if s \<noteq> [] \<and> hd s = CHR ''-'' then Some (- numeral_value ds)
      else Some (numeral_value ds))"

definition exponent_part :: "string \<Rightarrow> int option" where
  "exponent_part s =
     (case s of
        [] \<Rightarrow> Some 0
      | c # t \<Rightarrow> if c = CHR ''e'' \<or> c = CHR ''E'' then signed_integer t else None)"

text \<open>Whether the decimal value \<open>m\<close> times ten to the \<open>e\<close> rounds to a double above 0.\<close>

definition rounds_above_zero :: "int \<Rightarrow> int \<Rightarrow> bool" where
  "rounds_above_zero m e \<longleftrightarrow>
     0 < m \<and> (0 \<le> e \<or> 10 ^ nat (- e) < m * 2 ^ 1075)"

definition unsigned_decimal_gt_zero :: "string \<Rightarrow> bool" where
  "unsigned_decimal_gt_zero s =
     (if s = ''Infinity'' then True
      else
        (let ip = takeWhile (is_digit ''0123456789'') s;
             r1 = dropWhile (is_digit ''0123456789'') s;
             fp = (case r1 of
                     c # t \<Rightarrow> if c = CHR ''.'' then takeWhile (is_digit ''0123456789'') t else []
                   | [] \<Rightarrow> []);
             r2 = (case r1 of
                     c # t \<Rightarrow> if c = CHR ''.'' then dropWhile (is_digit ''0123456789'') t else r1
                   | [] \<Rightarrow> [])
         in if ip = [] \<and> fp = [] then False
            else (case exponent_part r2 of
                    None \<Rightarrow> False
                  | Some e \<Rightarrow>
                      rounds_above_zero (numeral_value (ip @ fp)) (e - int (length fp)))))"

definition radix_gt_zero :: "string \<Rightarrow> string \<Rightarrow> bool" where
  "radix_gt_zero digits ds \<longleftrightarrow>
     ds \<noteq> [] \<and> list_all (is_digit digits) ds \<and> list_ex (\<lambda>c. c \<noteq> CHR ''0'') ds"

definition string_gt_zero :: "string \<Rightarrow> bool" where
  "string_gt_zero s =
     (case trim s of
        [] \<Rightarrow> False
      | [c] \<Rightarrow> unsigned_decimal_gt_zero [c]
      | c # d # t \<Rightarrow>
          if c = CHR ''0'' \<and> (d = CHR ''x'' \<or> d = CHR ''X'')
          then radix_gt_zero ''0123456789abcdefABCDEF'' t
          else if c = CHR ''0'' \<and> (d = CHR ''o'' \<or> d = CHR ''O'')
          then radix_gt_zero ''01234567'' t
          else if c = CHR ''0'' \<and> (d = CHR ''b'' \<or> d = CHR ''B'')
          then radix_gt_zero ''01'' t
          else if c = CHR ''+'' then unsigned_decimal_gt_zero (d # t)
          else if c = CHR ''-'' then False
          else unsigned_decimal_gt_zero (c # d # t))"

text \<open>
  An array converts through the string that \<^verbatim>\<open>join\<close> makes of it: the strings of its
  elements with commas between them, where \<^verbatim>\<open>undefined\<close> and \<^verbatim>\<open>null\<close> give the empty
  string.  So only an array of one element can be a number, the number of that element's
  string.  An object converts through \<^verbatim>\<open>toString\<close>: the one it inherits gives a string
  that is not a number; an own property of that name is not a function in a tree, and
  the conversion throws a TypeError, also when the object is an element of an array.
\<close>

fun to_string_throws :: "jsval \<Rightarrow> bool" where
  "to_string_throws (Obj fs) = (''toString'' \<in> set (map fst fs))"
| "to_string_throws (Arr xs) = list_ex to_string_throws xs"
| "to_string_throws v = False"

fun item_gt_zero :: "jsval \<Rightarrow> bool" where
  "item_gt_zero (Num n) = (0 < n)"
| "item_gt_zero (Str s) = string_gt_zero s"
| "item_gt_zero (Arr [x]) = item_gt_zero x"
| "item_gt_zero v = False"

fun gt_zero :: "jsval \<Rightarrow> js_error + bool" where
  "gt_zero (Bool b) = Inr b"
| "gt_zero v = (if to_string_throws v then Inl TypeError else Inr (item_gt_zero v))"

section \<open>The dependency matcher\<close>

text \<open>The list \<^verbatim>\<open>HEAVY_DEPENDENCIES\<close> of the source, in its order.\<close>

definition HEAVY_DEPENDENCIES :: "string list" where
  "HEAVY_DEPENDENCIES =
    [''webpack'', ''rollup'', ''vite'', ''esbuild'', ''parcel'',
     ''jest'', ''mocha'', ''jasmine'', ''cypress'', ''playwright'',
     ''babel'', ''@babel/core'', ''typescript'', ''ts-node'',
     ''eslint'', ''prettier'', ''jshint'',
     ''lodash'', ''moment'', ''axios'', ''request'',
     ''react'', ''vue'', ''angular'', ''express'',
     ''nodemon'', ''pm2'', ''forever'']"

text \<open>
  \<^verbatim>\<open>isHeavyDependency(moduleName)\<close> on a string, with the list it consults as a
  parameter \<open>H\<close> (the source reads the module constant): \<^verbatim>\<open>includes\<close>, then
  \<^verbatim>\<open>some\<close> over the three \<^verbatim>\<open>startsWith\<close> tests.
\<close>

definition isHeavyDependency :: "string list \<Rightarrow> string \<Rightarrow> bool" where
  "isHeavyDependency H moduleName =
    (if moduleName \<in> set H then True
     else list_ex (\<lambda>dep.
            prefix (dep @ ''/'') moduleName \<or>
            prefix (''@'' @ dep @ ''/'') moduleName \<or>
            (prefix ''@'' dep \<and> prefix (dep @ ''/'') moduleName)) H)"

text \<open>
  The same call on an arbitrary value, returning the specifier when it is heavy.  A
  value that is not a string is never a member of the list, and the first callback
  of \<^verbatim>\<open>some\<close> then calls \<^verbatim>\<open>moduleName.startsWith\<close>, which is a TypeError; over an
  empty list \<^verbatim>\<open>some\<close> calls nothing and the answer is false.
\<close>

fun heavy_specifier :: "string list \<Rightarrow> jsval \<Rightarrow> js_error + string option" where
  "heavy_specifier H (Str s) = Inr (if isHeavyDependency H s then Some s else None)"
| "heavy_specifier H v = (if H = [] then Inr None else Inl TypeError)"

section \<open>The walker of checkLazyImportHeavyDeps\<close>

text \<open>
  The closure variables of \<^verbatim>\<open>checkLazyImportHeavyDeps\<close>: the two \<^verbatim>\<open>Set\<close>s (a set
  of strings in insertion order) and the depth counter.
\<close>

record walk_state =
  topLevelImports :: "string list"
  lazyImports :: "string list"
  currentDepth :: int

text \<open>\<^verbatim>\<open>Set.prototype.add\<close>: a value already present keeps its place.\<close>

definition set_add :: "string list \<Rightarrow> string \<Rightarrow> string list" where
  "set_add xs x = (if x \<in> set xs then xs else xs @ [x])"

text \<open>
  The test both call branches share, from \<^verbatim>\<open>node.arguments.length > 0\<close> on: the
  first argument when it is a \<^verbatim>\<open>Literal\<close> whose value is a string.  Reading
  \<^verbatim>\<open>length\<close> of a missing \<^verbatim>\<open>arguments\<close>, or \<^verbatim>\<open>type\<close> of a missing first
  element, throws, and so may the comparison.
\<close>

definition literal_argument :: "jsval \<Rightarrow> js_error + string option" where
  "literal_argument node =
    (case get (read_prop node ''arguments'') ''length'' of
       Inl e \<Rightarrow> Inl e
     | Inr len \<Rightarrow>
         (case gt_zero len of
            Inl e \<Rightarrow> Inl e
          | Inr positive \<Rightarrow>
              if positive then
                (let arg = index0 (read_prop node ''arguments'') in
                 case get arg ''type'' of
                   Inl e \<Rightarrow> Inl e
                 | Inr t \<Rightarrow>
                     if t = Str ''Literal'' then
                       (case read_prop arg ''value'' of
                          Str moduleName \<Rightarrow> Inr (Some moduleName)
                        | _ \<Rightarrow> Inr None)
                     else Inr None)
              else Inr None))"

text \<open>
  The loop \<^verbatim>\<open>for (const key in node)\<close>: for the value \<open>child\<close> of one property, the
  values on which \<^verbatim>\<open>walkNode\<close> is called, in order.  An array contributes its elements
  that are objects with a truthy \<^verbatim>\<open>type\<close>; any other object contributes itself when
  its \<^verbatim>\<open>type\<close> is truthy; everything else is skipped.
\<close>

definition child_targets :: "jsval \<Rightarrow> jsval list" where
  "child_targets child =
    (if truthy child \<and> typeof_object child then
       (case child of
          Arr cs \<Rightarrow> filter (\<lambda>c. truthy c \<and> typeof_object c \<and> truthy (read_prop c ''type'')) cs
        | _ \<Rightarrow> if truthy (read_prop child ''type'') then [child] else [])
     else [])"

text \<open>
  The values \<^verbatim>\<open>node[key]\<close> that \<^verbatim>\<open>for (const key in node)\<close> enumerates: the
  properties of an object, the elements of an array.
\<close>

fun property_values :: "jsval \<Rightarrow> jsval list" where
  "property_values (Obj fs) = map snd fs"
| "property_values (Arr xs) = xs"
| "property_values v = []"

definition walk_targets :: "jsval \<Rightarrow> jsval list" where
  "walk_targets node = concat (map child_targets (property_values node))"

text \<open>
  The values the loop recurses into are parts of the node: together they are smaller
  than it.  This is the measure of the recursion below.
\<close>

lemma size_list_filter_le: "size_list f (filter P xs) \<le> size_list f xs"
  by (induction xs) auto

lemma size_child_targets: "size_list size (child_targets v) \<le> Suc (size v)"
proof (cases v)
  case (Arr cs)
  have "size_list size (filter (\<lambda>c. truthy c \<and> typeof_object c \<and> truthy (read_prop c ''type'')) cs)
        \<le> size_list size cs"
    by (rule size_list_filter_le)
  with Arr show ?thesis by (simp add: child_targets_def)
qed (simp_all add: child_targets_def)

lemma size_concat_child_targets:
  "size_list size (concat (map child_targets vs)) \<le> size_list size vs"
proof (induction vs)
  case Nil
  show ?case by simp
next
  case (Cons v vs)
  have "size_list size (concat (map child_targets (v # vs)))
        = size_list size (child_targets v) + size_list size (concat (map child_targets vs))"
    by (simp add: size_list_append)
  also have "\<dots> \<le> Suc (size v) + size_list size vs"
    using size_child_targets[of v] Cons.IH by linarith
  finally show ?case by simp
qed

lemma size_list_map_snd: "size_list size (map snd fs) \<le> size_list (size_prod (\<lambda>x. 0) size) fs"
  by (induction fs) auto

lemma size_walk_targets:
  "truthy node \<Longrightarrow> typeof_object node \<Longrightarrow> size_list size (walk_targets node) < size node"
proof (cases node)
  case (Arr xs)
  then show ?thesis
    using size_concat_child_targets[of xs] by (simp add: walk_targets_def)
next
  case (Obj fs)
  then show ?thesis
    using size_concat_child_targets[of "map snd fs"] size_list_map_snd[of fs]
    by (simp add: walk_targets_def)
qed simp_all

text \<open>The test \<^verbatim>\<open>isFunctionNode\<close> of the source.\<close>

definition isFunctionNode :: "jsval \<Rightarrow> bool" where
  "isFunctionNode node =
    (read_prop node ''type'' = Str ''FunctionDeclaration'' \<or>
     read_prop node ''type'' = Str ''FunctionExpression'' \<or>
     read_prop node ''type'' = Str ''ArrowFunctionExpression'')"

text \<open>
  The three recording branches of \<^verbatim>\<open>walkNode\<close>, each as a function of the state
  that may throw: the static import at depth 0, the \<^verbatim>\<open>require\<close> call, and the call
  whose callee is an \<^verbatim>\<open>Import\<close> node.  The conjunctions of the source are evaluated
  left to right, so a later read is made only when the earlier tests hold.
\<close>

definition import_declaration_step :: "string list \<Rightarrow> jsval \<Rightarrow> walk_state \<Rightarrow> js_error + walk_state" where
  "import_declaration_step H node st =
    (if read_prop node ''type'' = Str ''ImportDeclaration'' \<and> currentDepth st = 0 then
       (case get (read_prop node ''source'') ''value'' of
          Inl e \<Rightarrow> Inl e
        | Inr source \<Rightarrow>
            (case heavy_specifier H source of
               Inl e \<Rightarrow> Inl e
             | Inr None \<Rightarrow> Inr st
             | Inr (Some s) \<Rightarrow> Inr (st\<lparr>topLevelImports := set_add (topLevelImports st) s\<rparr>)))
     else Inr st)"

definition require_step :: "string list \<Rightarrow> jsval \<Rightarrow> walk_state \<Rightarrow> js_error + walk_state" where
  "require_step H node st =
    (case get (read_prop node ''callee'') ''name'' of
       Inl e \<Rightarrow> Inl e
     | Inr nm \<Rightarrow>
         if nm = Str ''require'' then
           (case literal_argument node of
              Inl e \<Rightarrow> Inl e
            | Inr None \<Rightarrow> Inr st
            | Inr (Some moduleName) \<Rightarrow>
                if isHeavyDependency H moduleName then
                  (if currentDepth st = 0
                   then Inr (st\<lparr>topLevelImports := set_add (topLevelImports st) moduleName\<rparr>)
                   else Inr (st\<lparr>lazyImports := set_add (lazyImports st) moduleName\<rparr>))
                else Inr st)
         else Inr st)"

definition dynamic_import_step :: "string list \<Rightarrow> jsval \<Rightarrow> walk_state \<Rightarrow> js_error + walk_state" where
  "dynamic_import_step H node st =
    (case get (read_prop node ''callee'') ''type'' of
       Inl e \<Rightarrow> Inl e
     | Inr t \<Rightarrow>
         if t = Str ''Import'' then
           (case literal_argument node of
              Inl e \<Rightarrow> Inl e
            | Inr None \<Rightarrow> Inr st
            | Inr (Some moduleName) \<Rightarrow>
                if isHeavyDependency H moduleName
                then Inr (st\<lparr>lazyImports := set_add (lazyImports st) moduleName\<rparr>)
                else Inr st)
         else Inr st)"

text \<open>
  What \<^verbatim>\<open>walkNode\<close> does with the node itself before it descends: the import branch,
  then, for a \<^verbatim>\<open>CallExpression\<close>, the two call branches in turn.
\<close>

definition classify :: "string list \<Rightarrow> jsval \<Rightarrow> walk_state \<Rightarrow> js_error + walk_state" where
  "classify H node st =
    (case import_declaration_step H node st of
       Inl e \<Rightarrow> Inl e
     | Inr st1 \<Rightarrow>
         if read_prop node ''type'' = Str ''CallExpression'' then
           (case require_step H node st1 of
              Inl e \<Rightarrow> Inl e
            | Inr st2 \<Rightarrow> dynamic_import_step H node st2)
         else Inr st1)"

text \<open>
  \<^verbatim>\<open>walkNode(node)\<close> with the closure variables passed as a state and returned, and
  \<open>walkAll\<close> for the sequence of recursive calls of the loop.  An exception ends the
  walk.  The depth is incremented before the children of a function node are walked and
  decremented after them.
\<close>

function walkNode :: "string list \<Rightarrow> walk_state \<Rightarrow> jsval \<Rightarrow> js_error + walk_state"
  and walkAll :: "string list \<Rightarrow> walk_state \<Rightarrow> jsval list \<Rightarrow> js_error + walk_state" where
  "walkNode H st node =
    (if \<not> truthy node \<or> \<not> typeof_object node then Inr st
     else
       (case classify H node st of
          Inl e \<Rightarrow> Inl e
        | Inr st1 \<Rightarrow>
            (case walkAll H
                    (if isFunctionNode node then st1\<lparr>currentDepth := currentDepth st1 + 1\<rparr> else st1)
                    (walk_targets node) of
               Inl e \<Rightarrow> Inl e
             | Inr st3 \<Rightarrow>
                 Inr (if isFunctionNode node then st3\<lparr>currentDepth := currentDepth st3 - 1\<rparr> else st3))))"
| "walkAll H st [] = Inr st"
| "walkAll H st (c # cs) =
    (case walkNode H st c of
       Inl e \<Rightarrow> Inl e
     | Inr st' \<Rightarrow> walkAll H st' cs)"
  by pat_completeness auto
termination
proof (relation "measure (\<lambda>x. case x of
          Inl (H, st, node) \<Rightarrow> 2 * size node
        | Inr (H, st, cs) \<Rightarrow> 2 * size_list size cs + 1)")
  show "wf (measure (\<lambda>x. case x of
          Inl (H, st, node) \<Rightarrow> 2 * size node
        | Inr (H, st, cs) \<Rightarrow> 2 * size_list size cs + 1))"
    by simp
next
  fix H :: "string list" and st st1 :: walk_state and node :: jsval
  assume "\<not> (\<not> truthy node \<or> \<not> typeof_object node)"
  then have "size_list size (walk_targets node) < size node"
    by (simp add: size_walk_targets)
  then show "(Inr (H, if isFunctionNode node then st1\<lparr>currentDepth := currentDepth st1 + 1\<rparr> else st1,
                   walk_targets node),
              Inl (H, st, node))
             \<in> measure (\<lambda>x. case x of
                  Inl (H, st, node) \<Rightarrow> 2 * size node
                | Inr (H, st, cs) \<Rightarrow> 2 * size_list size cs + 1)"
    by simp
qed simp_all


declare walkNode.simps [simp del]

text \<open>
  The calls of \<^verbatim>\<open>walkNode\<close> that a walk from \<open>node\<close> at depth \<open>d\<close> makes when nothing
  throws: each node entered, with the value of \<^verbatim>\<open>currentDepth\<close> at its entry, in order.
\<close>

function visited :: "int \<Rightarrow> jsval \<Rightarrow> (jsval \<times> int) list"
  and visitedAll :: "int \<Rightarrow> jsval list \<Rightarrow> (jsval \<times> int) list" where
  "visited d node =
    (if \<not> truthy node \<or> \<not> typeof_object node then []
     else (node, d) # visitedAll (if isFunctionNode node then d + 1 else d) (walk_targets node))"
| "visitedAll d [] = []"
| "visitedAll d (c # cs) = visited d c @ visitedAll d cs"
  by pat_completeness auto
termination
proof (relation "measure (\<lambda>x. case x of
          Inl (d, node) \<Rightarrow> 2 * size node
        | Inr (d, cs) \<Rightarrow> 2 * size_list size cs + 1)")
  show "wf (measure (\<lambda>x. case x of
          Inl (d, node) \<Rightarrow> 2 * size node
        | Inr (d, cs) \<Rightarrow> 2 * size_list size cs + 1))"
    by simp
next
  fix d :: int and node :: jsval
  assume "\<not> (\<not> truthy node \<or> \<not> typeof_object node)"
  then have "size_list size (walk_targets node) < size node"
    by (simp add: size_walk_targets)
  then show "(Inr (if isFunctionNode node then d + 1 else d, walk_targets node), Inl (d, node))
             \<in> measure (\<lambda>x. case x of
                  Inl (d, node) \<Rightarrow> 2 * size node
                | Inr (d, cs) \<Rightarrow> 2 * size_list size cs + 1)"
    by simp
qed simp_all

declare visited.simps [simp del]

text \<open>
  The values written to \<^verbatim>\<open>currentDepth\<close> by \<^verbatim>\<open>currentDepth++\<close> and
  \<^verbatim>\<open>currentDepth--\<close> during a walk, in order, up to the point where the walk returns or
  throws.  The states are those of \<open>walkNode\<close> itself.
\<close>

function depth_writes :: "string list \<Rightarrow> walk_state \<Rightarrow> jsval \<Rightarrow> int list"
  and depth_writesAll :: "string list \<Rightarrow> walk_state \<Rightarrow> jsval list \<Rightarrow> int list" where
  "depth_writes H st node =
    (if \<not> truthy node \<or> \<not> typeof_object node then []
     else
       (case classify H node st of
          Inl e \<Rightarrow> []
        | Inr st1 \<Rightarrow>
            (if isFunctionNode node then [currentDepth st1 + 1] else []) @
            depth_writesAll H
              (if isFunctionNode node then st1\<lparr>currentDepth := currentDepth st1 + 1\<rparr> else st1)
              (walk_targets node) @
            (case walkAll H
                    (if isFunctionNode node then st1\<lparr>currentDepth := currentDepth st1 + 1\<rparr> else st1)
                    (walk_targets node) of
               Inl e \<Rightarrow> []
             | Inr st3 \<Rightarrow> if isFunctionNode node then [currentDepth st3 - 1] else [])))"
| "depth_writesAll H st [] = []"
| "depth_writesAll H st (c # cs) =
    depth_writes H st c @
    (case walkNode H st c of
       Inl e \<Rightarrow> []
     | Inr st' \<Rightarrow> depth_writesAll H st' cs)"
  by pat_completeness auto
termination
proof (relation "measure (\<lambda>x. case x of
          Inl (H, st, node) \<Rightarrow> 2 * size node
        | Inr (H, st, cs) \<Rightarrow> 2 * size_list size cs + 1)")
  show "wf (measure (\<lambda>x. case x of
          Inl (H, st, node) \<Rightarrow> 2 * size node
        | Inr (H, st, cs) \<Rightarrow> 2 * size_list size cs + 1))"
    by simp
next
  fix H :: "string list" and st st1 :: walk_state and node :: jsval
  assume "\<not> (\<not> truthy node \<or> \<not> typeof_object node)"
  then have "size_list size (walk_targets node) < size node"
    by (simp add: size_walk_targets)
  then show "(Inr (H, if isFunctionNode node then st1\<lparr>currentDepth := currentDepth st1 + 1\<rparr> else st1,
                   walk_targets node),
              Inl (H, st, node))
             \<in> measure (\<lambda>x. case x of
                  Inl (H, st, node) \<Rightarrow> 2 * size node
                | Inr (H, st, cs) \<Rightarrow> 2 * size_list size cs + 1)"
    by simp
qed simp_all

declare depth_writes.simps [simp del]




section \<open>Diagnostics and the linter\<close>

text \<open>
  One entry of \<^verbatim>\<open>this.errors\<close>; the field \<^verbatim>\<open>file\<close> is named \<open>file_path\<close> here.
  The message is the template string of the source; \<open>CHR 0x27\<close> is the single quote.
\<close>

record diagnostic =
  file_path :: string
  rule :: string
  message :: string
  severity :: string

definition heavy_message :: "string \<Rightarrow> string" where
  "heavy_message module =
    ''Heavy dependency '' @ [CHR 0x27] @ module @ [CHR 0x27] @
    '' should be lazily loaded to improve startup performance. '' @
    ''Consider using dynamic import() or require() inside functions.''"

definition report :: "string \<Rightarrow> string \<Rightarrow> diagnostic" where
  "report filePath module =
    \<lparr>file_path = filePath, rule = ''lazy-import-heavy-js-deps'',
     message = heavy_message module, severity = ''warning''\<rparr>"

definition initial_walk_state :: walk_state where
  "initial_walk_state = \<lparr>topLevelImports = [], lazyImports = [], currentDepth = 0\<rparr>"

text \<open>
  \<^verbatim>\<open>checkLazyImportHeavyDeps(ast, filePath)\<close>: the walk, then one push onto
  \<^verbatim>\<open>this.errors\<close> per entry of \<^verbatim>\<open>topLevelImports\<close>.  An exception of the walk leaves
  \<^verbatim>\<open>this.errors\<close> as it was, since every push comes after the walk.
\<close>

definition checkLazyImportHeavyDeps ::
  "string list \<Rightarrow> jsval \<Rightarrow> string \<Rightarrow> diagnostic list \<Rightarrow> js_error + diagnostic list" where
  "checkLazyImportHeavyDeps H ast filePath errs =
    (case walkNode H initial_walk_state ast of
       Inl e \<Rightarrow> Inl e
     | Inr st \<Rightarrow> Inr (errs @ map (report filePath) (topLevelImports st)))"


text \<open>
  The parser (acorn) is outside the repository: it is a parameter taking the options
  object and the text, and returning a tree or throwing.  The two option objects are
  those of \<^verbatim>\<open>lint\<close>; an option the second one leaves out has acorn's default.
\<close>

datatype source_type = Module | Script

record parse_options =
  ecmaVersion :: nat
  sourceType :: source_type
  allowImportExportEverywhere :: bool
  allowReturnOutsideFunction :: bool

type_synonym parser = "parse_options \<Rightarrow> string \<Rightarrow> js_error + jsval"

definition module_options :: parse_options where
  "module_options =
    \<lparr>ecmaVersion = 2022, sourceType = Module,
     allowImportExportEverywhere = True, allowReturnOutsideFunction = True\<rparr>"

definition script_options :: parse_options where
  "script_options =
    \<lparr>ecmaVersion = 2022, sourceType = Script,
     allowImportExportEverywhere = False, allowReturnOutsideFunction = True\<rparr>"

text \<open>
  The linter object and the console: \<^verbatim>\<open>this.errors\<close> and the lines written by
  \<^verbatim>\<open>console.warn\<close>, each kept as the path and the error whose message it prints.
\<close>

datatype warning =
    UnableToParse string js_error
  | UnableToRead string js_error

record linter =
  errors :: "diagnostic list"
  warned :: "warning list"

text \<open>One attempt of \<^verbatim>\<open>lint\<close>: the body of a \<^verbatim>\<open>try\<close> block, parse then check.\<close>

definition attempt ::
  "parser \<Rightarrow> string list \<Rightarrow> parse_options \<Rightarrow> string \<Rightarrow> string \<Rightarrow> diagnostic list
   \<Rightarrow> js_error + diagnostic list" where
  "attempt parse H opts filePath content errs =
    (case parse opts content of
       Inl e \<Rightarrow> Inl e
     | Inr ast \<Rightarrow> checkLazyImportHeavyDeps H ast filePath errs)"

text \<open>
  \<^verbatim>\<open>lint(filePath, content)\<close>: the module attempt; on any exception of it (of the
  parse or of the check) the script attempt; on any exception of that, a warning.
\<close>

definition lint :: "parser \<Rightarrow> string list \<Rightarrow> linter \<Rightarrow> string \<Rightarrow> string \<Rightarrow> linter" where
  "lint parse H L filePath content =
    (case attempt parse H module_options filePath content (errors L) of
       Inr errs \<Rightarrow> L\<lparr>errors := errs\<rparr>
     | Inl error \<Rightarrow>
         (case attempt parse H script_options filePath content (errors L) of
            Inr errs \<Rightarrow> L\<lparr>errors := errs\<rparr>
          | Inl e \<Rightarrow> L\<lparr>warned := warned L @ [UnableToParse filePath e]\<rparr>))"

text \<open>
  The body of \<^verbatim>\<open>files.forEach\<close> in \<^verbatim>\<open>lintFiles\<close>; \<^verbatim>\<open>fs.readFileSync\<close> is a
  parameter.  \<^verbatim>\<open>lint\<close> itself never throws, so the \<^verbatim>\<open>catch\<close> sees read errors only.
\<close>

definition lintFile ::
  "parser \<Rightarrow> (string \<Rightarrow> js_error + string) \<Rightarrow> string list \<Rightarrow> linter \<Rightarrow> string \<Rightarrow> linter" where
  "lintFile parse readFileSync H L f =
    (case readFileSync f of
       Inl error \<Rightarrow> L\<lparr>warned := warned L @ [UnableToRead f error]\<rparr>
     | Inr content \<Rightarrow> lint parse H L f content)"

text \<open>
  \<^verbatim>\<open>lintFiles(patterns)\<close> up to the report: a new linter (\<^verbatim>\<open>this.errors = []\<close>),
  the two nested \<^verbatim>\<open>forEach\<close> loops over every file of every pattern in order
  (\<^verbatim>\<open>findJSFiles\<close> is a parameter), and the count it returns.
\<close>

definition new_linter :: linter where
  "new_linter = \<lparr>errors = [], warned = []\<rparr>"

definition lintEach ::
  "parser \<Rightarrow> (string \<Rightarrow> js_error + string) \<Rightarrow> string list \<Rightarrow> linter \<Rightarrow> string list \<Rightarrow> linter" where
  "lintEach parse readFileSync H L files = foldl (lintFile parse readFileSync H) L files"


section \<open>Syntax trees used as examples\<close>

text \<open>
  Trees in the shape acorn gives them (ESTree), without the position fields
  \<^verbatim>\<open>start\<close> and \<^verbatim>\<open>end\<close> and the \<^verbatim>\<open>raw\<close> text of literals, which are numbers and
  strings and are skipped by the walker.
\<close>

definition ident :: "string \<Rightarrow> jsval" where
  "ident nm = Obj [(''type'', Str ''Identifier''), (''name'', Str nm)]"

definition literal :: "string \<Rightarrow> jsval" where
  "literal s = Obj [(''type'', Str ''Literal''), (''value'', Str s)]"

definition require_call :: "string \<Rightarrow> jsval" where
  "require_call s =
    Obj [(''type'', Str ''CallExpression''), (''callee'', ident ''require''),
         (''arguments'', Arr [literal s]), (''optional'', Bool False)]"

definition expression_statement :: "jsval \<Rightarrow> jsval" where
  "expression_statement e = Obj [(''type'', Str ''ExpressionStatement''), (''expression'', e)]"

definition program :: "jsval list \<Rightarrow> jsval" where
  "program body = Obj [(''type'', Str ''Program''), (''body'', Arr body), (''sourceType'', Str ''module'')]"

definition function_declaration :: "string \<Rightarrow> jsval list \<Rightarrow> jsval" where
  "function_declaration nm body =
    Obj [(''type'', Str ''FunctionDeclaration''), (''id'', ident nm),
         (''expression'', Bool False), (''generator'', Bool False), (''async'', Bool False),
         (''params'', Arr []),
         (''body'', Obj [(''type'', Str ''BlockStatement''), (''body'', Arr body)])]"

text \<open>\<^verbatim>\<open>import(s)\<close> as acorn parses it at \<^verbatim>\<open>ecmaVersion: 2022\<close>.\<close>

definition import_expression :: "string \<Rightarrow> jsval" where
  "import_expression s = Obj [(''type'', Str ''ImportExpression''), (''source'', literal s)]"

text \<open>\<^verbatim>\<open>import(s)\<close> in the shape the walker tests for: a call whose callee is an \<^verbatim>\<open>Import\<close> node.\<close>

definition import_call :: "string \<Rightarrow> jsval" where
  "import_call s =
    Obj [(''type'', Str ''CallExpression''), (''callee'', Obj [(''type'', Str ''Import'')]),
         (''arguments'', Arr [literal s])]"

definition return_statement :: jsval where
  "return_statement = Obj [(''type'', Str ''ReturnStatement''), (''argument'', Null)]"

definition script_program :: "jsval list \<Rightarrow> jsval" where
  "script_program body =
     Obj [(''type'', Str ''Program''), (''body'', Arr body), (''sourceType'', Str ''script'')]"

definition delete_statement :: "string \<Rightarrow> jsval" where
  "delete_statement nm =
     expression_statement
       (Obj [(''type'', Str ''UnaryExpression''), (''operator'', Str ''delete''),
             (''prefix'', Bool True), (''argument'', ident nm)])"

text \<open>
  The files of the examples, as module programs:
  \<^item> \<open>single_require\<close>: \<^verbatim>\<open>require("webpack");\<close>
  \<^item> \<open>nested_require\<close>: \<^verbatim>\<open>function f() { require("webpack"); }\<close>
  \<^item> \<open>two_requires\<close>: \<^verbatim>\<open>require("webpack"); require("react");\<close>
  \<^item> \<open>nested_and_top\<close>: \<^verbatim>\<open>function f() { require("webpack"); } require("react");\<close>
  \<^item> \<open>react_twice\<close>: \<^verbatim>\<open>require("react"); require("react");\<close>
  \<^item> \<open>import_and_require\<close>: \<^verbatim>\<open>import "react"; require("react");\<close>
  \<^item> \<open>only_import_expression\<close>: \<^verbatim>\<open>import("lodash");\<close> as acorn parses it
  \<^item> \<open>dynamic_twice\<close>: \<^verbatim>\<open>import("react"); import("react");\<close> as acorn parses it
  \<^item> \<open>dynamic_import_at_top\<close>: \<^verbatim>\<open>import("lodash"); require("webpack");\<close> with the
    import in the shape the walker tests for
  \<^item> \<open>deep_program n\<close>: one statement of \<open>n + 1\<close> array literals, each the only
    element of the one around it, \<^verbatim>\<open>[[[ ... ]]];\<close>

  Three trees are built by hand and are what no parser gives: \<open>call_without_callee\<close>,
  a call expression that has no \<^verbatim>\<open>callee\<close> (in \<open>broken_program\<close> and
  \<open>react_twice_then_broken\<close>), and \<open>require_named_import_call\<close>, a call whose callee
  is an \<^verbatim>\<open>Import\<close> node that also carries the name \<^verbatim>\<open>require\<close> (in
  \<open>only_require_named_import\<close>).
\<close>

definition single_require :: jsval where
  "single_require = program [expression_statement (require_call ''webpack'')]"

definition nested_require :: jsval where
  "nested_require =
     program [function_declaration ''f'' [expression_statement (require_call ''webpack'')]]"

definition two_requires :: jsval where
  "two_requires = program [expression_statement (require_call ''webpack''),
                           expression_statement (require_call ''react'')]"

definition nested_and_top :: jsval where
  "nested_and_top =
     program [function_declaration ''f'' [expression_statement (require_call ''webpack'')],
              expression_statement (require_call ''react'')]"

definition react_twice :: jsval where
  "react_twice = program [expression_statement (require_call ''react''),
                          expression_statement (require_call ''react'')]"

definition import_declaration :: "string \<Rightarrow> jsval" where
  "import_declaration s =
    Obj [(''type'', Str ''ImportDeclaration''), (''specifiers'', Arr []), (''source'', literal s)]"

definition import_and_require :: jsval where
  "import_and_require =
     program [import_declaration ''react'', expression_statement (require_call ''react'')]"

definition dynamic_twice :: jsval where
  "dynamic_twice = program [expression_statement (import_expression ''react''),
                            expression_statement (import_expression ''react'')]"

definition dynamic_import_at_top :: jsval where
  "dynamic_import_at_top =
     program [expression_statement (import_call ''lodash''),
              expression_statement (require_call ''webpack'')]"



definition call_without_callee :: jsval where
  "call_without_callee = Obj [(''type'', Str ''CallExpression''), (''arguments'', Arr [])]"


definition react_twice_then_broken :: jsval where
  "react_twice_then_broken =
     program [expression_statement (require_call ''react''),
              expression_statement (require_call ''react''),
              expression_statement call_without_callee]"

definition require_named_import_call :: "string \<Rightarrow> jsval" where
  "require_named_import_call s =
    Obj [(''type'', Str ''CallExpression''),
         (''callee'', Obj [(''type'', Str ''Import''), (''name'', Str ''require'')]),
         (''arguments'', Arr [literal s])]"

definition only_require_named_import :: jsval where
  "only_require_named_import =
     program [expression_statement (require_named_import_call ''lodash'')]"

definition only_import_expression :: jsval where
  "only_import_expression = program [expression_statement (import_expression ''lodash'')]"

text \<open>
  A stand-in for acorn on four source texts, answering on them as acorn does under the
  options it is given: a top-level \<^verbatim>\<open>require\<close> call parses under both source types; a
  top-level \<^verbatim>\<open>return\<close> parses exactly when \<^verbatim>\<open>allowReturnOutsideFunction\<close> is set;
  \<^verbatim>\<open>delete x\<close> parses as a script and is rejected in a module, which is strict code;
  \<^verbatim>\<open>@@@\<close> never parses.  The messages of the errors are shortened.  Other texts are
  not covered and are answered with an error.  \<open>stub_files\<close> is a file system of three
  files for \<^verbatim>\<open>fs.readFileSync\<close>.
\<close>

definition require_webpack_text :: string where
  "require_webpack_text = ''require('' @ [CHR 0x27] @ ''webpack'' @ [CHR 0x27] @ '');''"

definition stub_parser :: parser where
  "stub_parser opts content =
     (let prog = (if sourceType opts = Module then program else script_program) in
      if content = require_webpack_text then
        Inr (prog [expression_statement (require_call ''webpack'')])
      else if content = ''return;'' then
        (if allowReturnOutsideFunction opts then Inr (prog [return_statement])
         else Inl (SyntaxError ''return outside of function''))
      else if content = ''delete x;'' then
        (if sourceType opts = Script then Inr (prog [delete_statement ''x''])
         else Inl (SyntaxError ''Deleting local variable in strict mode''))
      else if content = ''@@@'' then Inl (SyntaxError ''Unexpected character'')
      else Inl (SyntaxError ''text not covered''))"

definition stub_files :: "string \<Rightarrow> js_error + string" where
  "stub_files f =
     (if f = ''lib/a.js'' then Inr require_webpack_text
      else if f = ''lib/b.js'' then Inr ''@@@''
      else if f = ''lib/c.js'' then Inr require_webpack_text
      else Inl (SystemError ''ENOENT''))"

section \<open>Import sites\<close>

text \<open>
  The two node shapes whose visit at depth 0 adds to \<^verbatim>\<open>topLevelImports\<close>, in the
  walker's own tests: a call \<^verbatim>\<open>require(s)\<close> with a literal string, and a static import
  declaration of \<open>s\<close>.
\<close>

definition requires_literal :: "jsval \<Rightarrow> string \<Rightarrow> bool" where
  "requires_literal node s \<longleftrightarrow>
     read_prop node ''type'' = Str ''CallExpression'' \<and>
     get (read_prop node ''callee'') ''name'' = Inr (Str ''require'') \<and>
     literal_argument node = Inr (Some s)"

definition imports_statically :: "jsval \<Rightarrow> string \<Rightarrow> bool" where
  "imports_statically node s \<longleftrightarrow>
     read_prop node ''type'' = Str ''ImportDeclaration'' \<and>
     get (read_prop node ''source'') ''value'' = Inr (Str s)"

definition top_level_site :: "string list \<Rightarrow> jsval \<Rightarrow> string \<Rightarrow> bool" where
  "top_level_site H node s \<longleftrightarrow>
     isHeavyDependency H s \<and> (imports_statically node s \<or> requires_literal node s)"

text \<open>
  The node shape of the third recording branch, a call whose callee is an \<^verbatim>\<open>Import\<close>
  node, and the nodes whose visit at depth \<open>d\<close> adds \<open>s\<close> to \<^verbatim>\<open>lazyImports\<close>.
\<close>

definition imports_dynamically :: "jsval \<Rightarrow> string \<Rightarrow> bool" where
  "imports_dynamically node s \<longleftrightarrow>
     read_prop node ''type'' = Str ''CallExpression'' \<and>
     get (read_prop node ''callee'') ''type'' = Inr (Str ''Import'') \<and>
     literal_argument node = Inr (Some s)"

definition lazy_site :: "string list \<Rightarrow> int \<Rightarrow> jsval \<Rightarrow> string \<Rightarrow> bool" where
  "lazy_site H d node s \<longleftrightarrow>
     isHeavyDependency H s \<and> ((d \<noteq> 0 \<and> requires_literal node s) \<or> imports_dynamically node s)"


section \<open>The dependency matcher: what it accepts\<close>

lemma isHeavyDependency_set:
  "isHeavyDependency H s \<longleftrightarrow>
     s \<in> set H \<or> (\<exists>d\<in>set H. prefix (d @ ''/'') s \<or> prefix (''@'' @ d @ ''/'') s)"
  by (auto simp: isHeavyDependency_def list_ex_iff)

text \<open>
  Claim C2, as the source has it.  For every specifier \<open>s\<close> and list \<open>H\<close>,
  \<open>isHeavyDependency H s\<close> holds exactly when \<open>s\<close> is in \<open>H\<close>, or \<open>s\<close> is some
  \<open>d\<close> of \<open>H\<close> followed by a slash and a rest, or \<open>s\<close> is an at-sign, some \<open>d\<close> of
  \<open>H\<close> (with or without an at-sign of its own), a slash and a rest.  There is no
  partial-word matching: \<^verbatim>\<open>webpackx\<close> is not heavy for \<^verbatim>\<open>webpack\<close>, while
  \<^verbatim>\<open>webpack/lib/Foo\<close> is, and \<^verbatim>\<open>@babel/core\<close> is heavy for itself.  The scope that
  is matched is the one named like the dependency: \<^verbatim>\<open>@webpack/cli\<close> is heavy for
  \<^verbatim>\<open>webpack\<close>, \<^verbatim>\<open>@myorg/webpack\<close> is not.
\<close>

theorem isHeavyDependency_characterisation:
  "(isHeavyDependency H s \<longleftrightarrow>
      s \<in> set H \<or>
      (\<exists>d\<in>set H. \<exists>rest. s = d @ ''/'' @ rest) \<or>
      (\<exists>d\<in>set H. \<exists>rest. s = ''@'' @ d @ ''/'' @ rest)) \<and>
   \<not> isHeavyDependency [''webpack''] ''webpackx'' \<and>
   isHeavyDependency [''webpack''] ''webpack/lib/Foo'' \<and>
   isHeavyDependency [''@babel/core''] ''@babel/core'' \<and>
   \<not> isHeavyDependency [''webpack''] ''@myorg/webpack'' \<and>
   isHeavyDependency [''webpack''] ''@webpack/cli''"
proof -
  have "isHeavyDependency H s \<longleftrightarrow>
      s \<in> set H \<or>
      (\<exists>d\<in>set H. \<exists>rest. s = d @ ''/'' @ rest) \<or>
      (\<exists>d\<in>set H. \<exists>rest. s = ''@'' @ d @ ''/'' @ rest)"
    unfolding isHeavyDependency_set prefix_def by auto
  moreover have "\<not> isHeavyDependency [''webpack''] ''webpackx''"
    by (simp add: isHeavyDependency_set)
  moreover have "isHeavyDependency [''webpack''] ''webpack/lib/Foo''"
    by (simp add: isHeavyDependency_set)
  moreover have "isHeavyDependency [''@babel/core''] ''@babel/core''"
    by (simp add: isHeavyDependency_set)
  moreover have "\<not> isHeavyDependency [''webpack''] ''@myorg/webpack''"
    by (simp add: isHeavyDependency_set)
  moreover have "isHeavyDependency [''webpack''] ''@webpack/cli''"
    by (simp add: isHeavyDependency_set)
  ultimately show ?thesis by blast
qed

text \<open>
  Claim C2 as worded fails twice.  \<^verbatim>\<open>@myorg/webpack\<close> is not heavy for
  \<^verbatim>\<open>webpack\<close>.  And the at-sign form is not limited to names without an at-sign:
  \<^verbatim>\<open>@@babel/core/x\<close> is heavy for \<^verbatim>\<open>@babel/core\<close> although none of the three forms of
  the claim covers it.
\<close>

theorem isHeavyDependency_scope_counterexample:
  "\<not> isHeavyDependency [''webpack''] ''@myorg/webpack'' \<and>
   isHeavyDependency [''@babel/core''] ''@@babel/core/x'' \<and>
   \<not> (''@@babel/core/x'' \<in> set [''@babel/core''] \<or>
      (\<exists>d\<in>set [''@babel/core'']. \<exists>rest. ''@@babel/core/x'' = d @ ''/'' @ rest) \<or>
      (\<exists>d\<in>set [''@babel/core''].
          \<not> prefix ''@'' d \<and> (\<exists>rest. ''@@babel/core/x'' = ''@'' @ d @ ''/'' @ rest)))"
  by (simp add: isHeavyDependency_set)


section \<open>What a successful walk records\<close>

lemma set_set_add [simp]: "set (set_add xs x) = insert x (set xs)"
  by (auto simp: set_add_def)

lemma distinct_set_add [simp]: "distinct (set_add xs x) = distinct xs"
  by (auto simp: set_add_def)

lemma heavy_specifier_Some:
  "heavy_specifier H v = Inr (Some s) \<longleftrightarrow> v = Str s \<and> isHeavyDependency H s"
  by (cases v) (auto split: if_splits)

lemma heavy_specifier_None:
  "heavy_specifier H v = Inr None \<Longrightarrow> \<not> (v = Str s \<and> isHeavyDependency H s)"
  by (cases v) (auto split: if_splits)

lemma import_declaration_step_Inr:
  assumes "import_declaration_step H n st = Inr st'"
  shows "currentDepth st' = currentDepth st"
    and "lazyImports st' = lazyImports st"
    and "set (topLevelImports st') = set (topLevelImports st) \<union>
           {s. currentDepth st = 0 \<and> isHeavyDependency H s \<and> imports_statically n s}"
    and "distinct (topLevelImports st') = distinct (topLevelImports st)"
  using assms
  by (auto simp: import_declaration_step_def imports_statically_def heavy_specifier_Some
      split: if_splits sum.splits option.splits dest: heavy_specifier_None)

lemma require_step_Inr:
  assumes "require_step H n st = Inr st'"
    and "read_prop n ''type'' = Str ''CallExpression''"
  shows "currentDepth st' = currentDepth st"
    and "set (topLevelImports st') = set (topLevelImports st) \<union>
           {s. currentDepth st = 0 \<and> isHeavyDependency H s \<and> requires_literal n s}"
    and "distinct (topLevelImports st') = distinct (topLevelImports st)"
  using assms
  by (auto simp: require_step_def requires_literal_def
      split: if_splits sum.splits option.splits)

lemma dynamic_import_step_Inr:
  assumes "dynamic_import_step H n st = Inr st'"
  shows "currentDepth st' = currentDepth st"
    and "topLevelImports st' = topLevelImports st"
  using assms
  by (auto simp: dynamic_import_step_def split: if_splits sum.splits option.splits)

lemma requires_literal_type:
  "requires_literal n s \<Longrightarrow> read_prop n ''type'' = Str ''CallExpression''"
  by (simp add: requires_literal_def)

lemma classify_Inr:
  assumes "classify H n st = Inr st'"
  shows "currentDepth st' = currentDepth st \<and>
         distinct (topLevelImports st') = distinct (topLevelImports st) \<and>
         set (topLevelImports st') = set (topLevelImports st) \<union>
           {s. currentDepth st = 0 \<and> top_level_site H n s}"
proof -
  from assms obtain st1 where s1: "import_declaration_step H n st = Inr st1"
    by (auto simp: classify_def split: sum.splits)
  note i = import_declaration_step_Inr[OF s1]
  show ?thesis
  proof (cases "read_prop n ''type'' = Str ''CallExpression''")
    case False
    with assms s1 have eq: "st' = st1" by (simp add: classify_def)
    from False have nr: "\<And>s. \<not> requires_literal n s" by (auto dest: requires_literal_type)
    show ?thesis
      using eq i nr by (auto simp: top_level_site_def)
  next
    case True
    with assms s1 obtain st2 where s2: "require_step H n st1 = Inr st2"
      and s3: "dynamic_import_step H n st2 = Inr st'"
      by (auto simp: classify_def split: sum.splits)
    note r = require_step_Inr[OF s2 True]
    note d = dynamic_import_step_Inr[OF s3]
    show ?thesis
      using i r d by (auto simp: top_level_site_def)
  qed
qed

lemma walk_Inr:
  "walkNode H st node = Inr st' \<Longrightarrow>
     currentDepth st' = currentDepth st \<and>
     distinct (topLevelImports st') = distinct (topLevelImports st) \<and>
     set (topLevelImports st') = set (topLevelImports st) \<union>
       {s. \<exists>n. (n, 0) \<in> set (visited (currentDepth st) node) \<and> top_level_site H n s}"
  "walkAll H st cs = Inr st' \<Longrightarrow>
     currentDepth st' = currentDepth st \<and>
     distinct (topLevelImports st') = distinct (topLevelImports st) \<and>
     set (topLevelImports st') = set (topLevelImports st) \<union>
       {s. \<exists>n. (n, 0) \<in> set (visitedAll (currentDepth st) cs) \<and> top_level_site H n s}"
proof (induction H st node and H st cs arbitrary: st' and st' rule: walkNode_walkAll.induct)
  case (1 H st node)
  show ?case
  proof (cases "\<not> truthy node \<or> \<not> typeof_object node")
    case True
    with "1.prems" show ?thesis by (simp add: walkNode.simps visited.simps)
  next
    case False
    with "1.prems" obtain st1 st3 where c: "classify H node st = Inr st1"
      and w: "walkAll H (if isFunctionNode node then st1\<lparr>currentDepth := currentDepth st1 + 1\<rparr> else st1)
                (walk_targets node) = Inr st3"
      and e: "st' = (if isFunctionNode node then st3\<lparr>currentDepth := currentDepth st3 - 1\<rparr> else st3)"
      by (auto simp: walkNode.simps split: sum.splits)
    note ih = "1.IH"[OF False c w]
    note cl = classify_Inr[OF c]
    have v: "visited (currentDepth st) node =
        (node, currentDepth st) # visitedAll (if isFunctionNode node then currentDepth st + 1 else currentDepth st)
           (walk_targets node)"
      using False by (simp add: visited.simps)
    show ?thesis
      using ih cl e unfolding v by (cases "isFunctionNode node") auto
  qed
next
  case (2 H st)
  then show ?case by simp
next
  case (3 H st c cs)
  from "3.prems" obtain st1 where a: "walkNode H st c = Inr st1" and b: "walkAll H st1 cs = Inr st'"
    by (auto split: sum.splits)
  note ih1 = "3.IH"(1)[OF a]
  note ih2 = "3.IH"(2)[OF a b]
  show ?case using ih1 ih2 by auto
qed

lemma require_step_lazy:
  assumes "require_step H n st = Inr st'"
    and "read_prop n ''type'' = Str ''CallExpression''"
  shows "set (lazyImports st') = set (lazyImports st) \<union>
           {s. currentDepth st \<noteq> 0 \<and> isHeavyDependency H s \<and> requires_literal n s}"
  using assms
  by (auto simp: require_step_def requires_literal_def
      split: if_splits sum.splits option.splits)

lemma dynamic_import_step_lazy:
  assumes "dynamic_import_step H n st = Inr st'"
    and "read_prop n ''type'' = Str ''CallExpression''"
  shows "set (lazyImports st') = set (lazyImports st) \<union>
           {s. isHeavyDependency H s \<and> imports_dynamically n s}"
  using assms
  by (auto simp: dynamic_import_step_def imports_dynamically_def
      split: if_splits sum.splits option.splits)

lemma classify_lazy:
  assumes "classify H n st = Inr st'"
  shows "set (lazyImports st') = set (lazyImports st) \<union> {s. lazy_site H (currentDepth st) n s}"
proof -
  from assms obtain st1 where s1: "import_declaration_step H n st = Inr st1"
    by (auto simp: classify_def split: sum.splits)
  note i = import_declaration_step_Inr[OF s1]
  show ?thesis
  proof (cases "read_prop n ''type'' = Str ''CallExpression''")
    case False
    with assms s1 have eq: "st' = st1" by (simp add: classify_def)
    from False have "\<And>s. \<not> lazy_site H (currentDepth st) n s"
      by (auto simp: lazy_site_def requires_literal_def imports_dynamically_def)
    with eq i(2) show ?thesis by simp
  next
    case True
    with assms s1 obtain st2 where s2: "require_step H n st1 = Inr st2"
      and s3: "dynamic_import_step H n st2 = Inr st'"
      by (auto simp: classify_def split: sum.splits)
    note r = require_step_lazy[OF s2 True]
    note d = dynamic_import_step_lazy[OF s3 True]
    show ?thesis
      using i(1,2) r d by (auto simp: lazy_site_def)
  qed
qed

lemma walk_lazy:
  "walkNode H st node = Inr st' \<Longrightarrow>
     set (lazyImports st') = set (lazyImports st) \<union>
       {s. \<exists>n d. (n, d) \<in> set (visited (currentDepth st) node) \<and> lazy_site H d n s}"
  "walkAll H st cs = Inr st' \<Longrightarrow>
     set (lazyImports st') = set (lazyImports st) \<union>
       {s. \<exists>n d. (n, d) \<in> set (visitedAll (currentDepth st) cs) \<and> lazy_site H d n s}"
proof (induction H st node and H st cs arbitrary: st' and st' rule: walkNode_walkAll.induct)
  case (1 H st node)
  show ?case
  proof (cases "\<not> truthy node \<or> \<not> typeof_object node")
    case True
    with "1.prems" show ?thesis by (simp add: walkNode.simps visited.simps)
  next
    case False
    let ?d = "if isFunctionNode node then currentDepth st + 1 else currentDepth st"
    from False "1.prems" obtain st1 st3 where c: "classify H node st = Inr st1"
      and w: "walkAll H (if isFunctionNode node then st1\<lparr>currentDepth := currentDepth st1 + 1\<rparr> else st1)
                (walk_targets node) = Inr st3"
      and e: "st' = (if isFunctionNode node then st3\<lparr>currentDepth := currentDepth st3 - 1\<rparr> else st3)"
      by (auto simp: walkNode.simps split: sum.splits)
    note ih = "1.IH"[OF False c w]
    note cl = classify_lazy[OF c]
    have cd: "currentDepth st1 = currentDepth st" using classify_Inr[OF c] by simp
    have v: "visited (currentDepth st) node = (node, currentDepth st) # visitedAll ?d (walk_targets node)"
      using False by (simp add: visited.simps)
    have l3: "set (lazyImports st3) = set (lazyImports st1) \<union>
       {s. \<exists>n d. (n, d) \<in> set (visitedAll ?d (walk_targets node)) \<and> lazy_site H d n s}"
      using ih cd by (cases "isFunctionNode node") simp_all
    have "lazyImports st' = lazyImports st3" using e by simp
    with l3 cl show ?thesis unfolding v by auto
  qed
next
  case (2 H st)
  then show ?case by simp
next
  case (3 H st c cs)
  from "3.prems" obtain st1 where a: "walkNode H st c = Inr st1" and b: "walkAll H st1 cs = Inr st'"
    by (auto split: sum.splits)
  have d: "currentDepth st1 = currentDepth st" using walk_Inr(1)[OF a] by simp
  note ih1 = "3.IH"(1)[OF a]
  note ih2 = "3.IH"(2)[OF a b]
  show ?case using ih1 ih2 d by auto
qed

section \<open>Diagnostics of one file\<close>

lemma heavy_message_inject [simp]: "heavy_message a = heavy_message b \<longleftrightarrow> a = b"
  by (simp add: heavy_message_def)

lemma filter_eq_distinct: "distinct xs \<Longrightarrow> s \<in> set xs \<Longrightarrow> filter (\<lambda>x. x = s) xs = [s]"
  by (induction xs) (auto simp: filter_empty_conv)

lemma reports_for_specifier:
  assumes "distinct xs" and "s \<in> set xs"
  shows "filter (\<lambda>d. message d = heavy_message s) (map (report f) xs) = [report f s]"
proof -
  have "filter (\<lambda>d. message d = heavy_message s) (map (report f) xs)
        = map (report f) (filter (\<lambda>x. x = s) xs)"
    by (simp add: filter_map comp_def report_def)
  with assms show ?thesis by (simp add: filter_eq_distinct)
qed

lemma checkLazyImportHeavyDeps_Inr:
  assumes "checkLazyImportHeavyDeps H ast filePath errs = Inr errs'"
  shows "\<exists>top. errs' = errs @ map (report filePath) top \<and> distinct top \<and>
           set top = {s. \<exists>n. (n, 0) \<in> set (visited 0 ast) \<and> top_level_site H n s}"
proof -
  from assms obtain st where w: "walkNode H initial_walk_state ast = Inr st"
    and e: "errs' = errs @ map (report filePath) (topLevelImports st)"
    by (auto simp: checkLazyImportHeavyDeps_def split: sum.splits)
  from walk_Inr(1)[OF w]
  have "distinct (topLevelImports st)"
    and "set (topLevelImports st) = {s. \<exists>n. (n, 0) \<in> set (visited 0 ast) \<and> top_level_site H n s}"
    by (simp_all add: initial_walk_state_def)
  with e show ?thesis by blast
qed

lemma webpack_heavy: "isHeavyDependency HEAVY_DEPENDENCIES ''webpack''"
  by (simp add: isHeavyDependency_def HEAVY_DEPENDENCIES_def)

lemma top_level_site_type:
  "top_level_site H n s \<Longrightarrow>
     read_prop n ''type'' = Str ''ImportDeclaration'' \<or> read_prop n ''type'' = Str ''CallExpression''"
  by (auto simp: top_level_site_def imports_statically_def requires_literal_def)

text \<open>
  Claim C1, as the source has it.  Let the check of a tree return normally under the
  built-in list.  If the walk visits, at depth 0, a call \<^verbatim>\<open>require("webpack")\<close> with a
  literal argument, then exactly one of the diagnostics added for the file names
  \<^verbatim>\<open>webpack\<close>, and it carries the file's path, the rule
  \<^verbatim>\<open>lazy-import-heavy-js-deps\<close> and the severity \<^verbatim>\<open>warning\<close> (other heavy specifiers
  imported at depth 0 add diagnostics of their own).  If no node visited at depth 0 is a
  static import or a literal \<^verbatim>\<open>require\<close> of a heavy specifier, as when every such call
  sits inside a function body, then no diagnostic is added.
\<close>

theorem top_level_require_webpack:
  assumes "checkLazyImportHeavyDeps HEAVY_DEPENDENCIES ast filePath errs = Inr errs'"
  shows "((\<exists>n. (n, 0) \<in> set (visited 0 ast) \<and> requires_literal n ''webpack'') \<longrightarrow>
            (\<exists>ds. errs' = errs @ ds \<and>
               filter (\<lambda>d. message d = heavy_message ''webpack'') ds =
                 [\<lparr>file_path = filePath, rule = ''lazy-import-heavy-js-deps'',
                   message = heavy_message ''webpack'', severity = ''warning''\<rparr>])) \<and>
         ((\<forall>n s. (n, 0) \<in> set (visited 0 ast) \<longrightarrow> \<not> top_level_site HEAVY_DEPENDENCIES n s) \<longrightarrow>
            errs' = errs)"
proof -
  from checkLazyImportHeavyDeps_Inr[OF assms]
  obtain top where e: "errs' = errs @ map (report filePath) top"
    and d: "distinct top"
    and t: "set top =
              {s. \<exists>n. (n, 0) \<in> set (visited 0 ast) \<and> top_level_site HEAVY_DEPENDENCIES n s}"
    by blast
  have one: "\<exists>ds. errs' = errs @ ds \<and>
               filter (\<lambda>d. message d = heavy_message ''webpack'') ds =
                 [\<lparr>file_path = filePath, rule = ''lazy-import-heavy-js-deps'',
                   message = heavy_message ''webpack'', severity = ''warning''\<rparr>]"
    if "\<exists>n. (n, 0) \<in> set (visited 0 ast) \<and> requires_literal n ''webpack''"
  proof -
    from that t have "''webpack'' \<in> set top"
      using webpack_heavy by (auto simp: top_level_site_def)
    with d have "filter (\<lambda>d. message d = heavy_message ''webpack'')
                   (map (report filePath) top) = [report filePath ''webpack'']"
      by (rule reports_for_specifier)
    with e show ?thesis by (simp add: report_def)
  qed
  have zero: "errs' = errs"
    if "\<forall>n s. (n, 0) \<in> set (visited 0 ast) \<longrightarrow> \<not> top_level_site HEAVY_DEPENDENCIES n s"
  proof -
    from that t have "set top = {}" by auto
    with e show ?thesis by simp
  qed
  from one zero show ?thesis by blast
qed

theorem top_level_require_webpack_witness:
  "checkLazyImportHeavyDeps HEAVY_DEPENDENCIES single_require ''lib/a.js'' [] =
     Inr [\<lparr>file_path = ''lib/a.js'', rule = ''lazy-import-heavy-js-deps'',
            message = heavy_message ''webpack'', severity = ''warning''\<rparr>] \<and>
   (require_call ''webpack'', 0) \<in> set (visited 0 single_require) \<and>
   requires_literal (require_call ''webpack'') ''webpack'' \<and>
   (\<exists>ds. [\<lparr>file_path = ''lib/a.js'', rule = ''lazy-import-heavy-js-deps'',
            message = heavy_message ''webpack'', severity = ''warning''\<rparr>] = [] @ ds \<and>
         filter (\<lambda>d. message d = heavy_message ''webpack'') ds =
           [\<lparr>file_path = ''lib/a.js'', rule = ''lazy-import-heavy-js-deps'',
              message = heavy_message ''webpack'', severity = ''warning''\<rparr>]) \<and>
   checkLazyImportHeavyDeps HEAVY_DEPENDENCIES nested_require ''lib/a.js'' [] = Inr [] \<and>
   (require_call ''webpack'', 1) \<in> set (visited 0 nested_require)"
proof -
  have v1: "(require_call ''webpack'', 0) \<in> set (visited 0 single_require)"
    by code_simp
  have r1: "requires_literal (require_call ''webpack'') ''webpack''"
    by code_simp
  have c1: "checkLazyImportHeavyDeps HEAVY_DEPENDENCIES single_require ''lib/a.js'' [] =
     Inr [\<lparr>file_path = ''lib/a.js'', rule = ''lazy-import-heavy-js-deps'',
            message = heavy_message ''webpack'', severity = ''warning''\<rparr>]"
    by code_simp
  have v2: "(require_call ''webpack'', 1) \<in> set (visited 0 nested_require)"
    by code_simp
  have t2: "\<forall>x\<in>set (visited 0 nested_require). snd x = 0 \<longrightarrow>
              read_prop (fst x) ''type'' \<noteq> Str ''ImportDeclaration'' \<and>
              read_prop (fst x) ''type'' \<noteq> Str ''CallExpression''"
    by code_simp
  have h2: "\<forall>n s. (n, 0) \<in> set (visited 0 nested_require) \<longrightarrow>
              \<not> top_level_site HEAVY_DEPENDENCIES n s"
    using t2 top_level_site_type by fastforce
  have c2: "checkLazyImportHeavyDeps HEAVY_DEPENDENCIES nested_require ''lib/a.js'' [] = Inr []"
    by code_simp
  from top_level_require_webpack[OF c1] v1 r1
  have one: "\<exists>ds. [\<lparr>file_path = ''lib/a.js'', rule = ''lazy-import-heavy-js-deps'',
            message = heavy_message ''webpack'', severity = ''warning''\<rparr>] = [] @ ds \<and>
         filter (\<lambda>d. message d = heavy_message ''webpack'') ds =
           [\<lparr>file_path = ''lib/a.js'', rule = ''lazy-import-heavy-js-deps'',
              message = heavy_message ''webpack'', severity = ''warning''\<rparr>]"
    by blast
  from c1 v1 r1 one c2 v2 show ?thesis by blast
qed

text \<open>
  Claim C1 as worded fails: a file may hold \<^verbatim>\<open>require("webpack")\<close> at depth 0 and get
  two diagnostics, and a file whose only \<^verbatim>\<open>require("webpack")\<close> is inside a function
  may still get one, each time for \<^verbatim>\<open>require("react")\<close> at depth 0.
\<close>

theorem top_level_require_webpack_counterexample:
  "(require_call ''webpack'', 0) \<in> set (visited 0 two_requires) \<and>
   requires_literal (require_call ''webpack'') ''webpack'' \<and>
   checkLazyImportHeavyDeps HEAVY_DEPENDENCIES two_requires ''lib/a.js'' [] =
     Inr [report ''lib/a.js'' ''webpack'', report ''lib/a.js'' ''react''] \<and>
   (require_call ''webpack'', 1) \<in> set (visited 0 nested_and_top) \<and>
   (require_call ''webpack'', 0) \<notin> set (visited 0 nested_and_top) \<and>
   checkLazyImportHeavyDeps HEAVY_DEPENDENCIES nested_and_top ''lib/a.js'' [] =
     Inr [report ''lib/a.js'' ''react'']"
  by code_simp

text \<open>
  Claim C5, as the source has it.  Let the check of a tree return normally, and let the
  walk visit at depth 0 two nodes that each import the same heavy specifier \<open>s\<close>, by a
  static import or by a literal \<^verbatim>\<open>require\<close>.  Then exactly one of the diagnostics added
  for the file names \<open>s\<close>.
\<close>

theorem duplicate_specifier_reported_once:
  assumes "checkLazyImportHeavyDeps H ast filePath errs = Inr errs'"
    and "i < j" and "j < length (visited 0 ast)"
    and "visited 0 ast ! i = (n1, 0)" and "visited 0 ast ! j = (n2, 0)"
    and "top_level_site H n1 s" and "top_level_site H n2 s"
  shows "\<exists>ds. errs' = errs @ ds \<and>
           length (filter (\<lambda>d. message d = heavy_message s) ds) = 1"
proof -
  from checkLazyImportHeavyDeps_Inr[OF assms(1)]
  obtain top where e: "errs' = errs @ map (report filePath) top"
    and d: "distinct top"
    and t: "set top = {s. \<exists>n. (n, 0) \<in> set (visited 0 ast) \<and> top_level_site H n s}"
    by blast
  from assms(2,3,4) have "(n1, 0) \<in> set (visited 0 ast)"
    by (metis nth_mem order_less_trans)
  with assms(6) t have "s \<in> set top"
    by auto
  with d have "filter (\<lambda>d. message d = heavy_message s) (map (report filePath) top)
                 = [report filePath s]"
    by (rule reports_for_specifier)
  with e show ?thesis by simp
qed

theorem duplicate_specifier_reported_once_witness:
  "(2::nat) < 6 \<and> 6 < length (visited 0 react_twice) \<and>
   visited 0 react_twice ! 2 = (require_call ''react'', 0) \<and>
   visited 0 react_twice ! 6 = (require_call ''react'', 0) \<and>
   top_level_site HEAVY_DEPENDENCIES (require_call ''react'') ''react'' \<and>
   checkLazyImportHeavyDeps HEAVY_DEPENDENCIES react_twice ''lib/a.js'' [] =
     Inr [report ''lib/a.js'' ''react''] \<and>
   (1::nat) < 4 \<and> 4 < length (visited 0 import_and_require) \<and>
   visited 0 import_and_require ! 1 = (import_declaration ''react'', 0) \<and>
   visited 0 import_and_require ! 4 = (require_call ''react'', 0) \<and>
   top_level_site HEAVY_DEPENDENCIES (import_declaration ''react'') ''react'' \<and>
   checkLazyImportHeavyDeps HEAVY_DEPENDENCIES import_and_require ''lib/a.js'' [] =
     Inr [report ''lib/a.js'' ''react''] \<and>
   (\<exists>ds. [report ''lib/a.js'' ''react''] = [] @ ds \<and>
         length (filter (\<lambda>d. message d = heavy_message ''react'') ds) = 1)"
proof -
  have c: "checkLazyImportHeavyDeps HEAVY_DEPENDENCIES react_twice ''lib/a.js'' [] =
     Inr [report ''lib/a.js'' ''react'']"
    by code_simp
  have l: "6 < length (visited 0 react_twice)" by code_simp
  have v2: "visited 0 react_twice ! 2 = (require_call ''react'', 0)" by code_simp
  have v6: "visited 0 react_twice ! 6 = (require_call ''react'', 0)" by code_simp
  have r: "top_level_site HEAVY_DEPENDENCIES (require_call ''react'') ''react''" by code_simp
  from duplicate_specifier_reported_once[OF c _ l v2 v6 r r]
  have one: "\<exists>ds. [report ''lib/a.js'' ''react''] = [] @ ds \<and>
           length (filter (\<lambda>d. message d = heavy_message ''react'') ds) = 1"
    by simp
  have c': "checkLazyImportHeavyDeps HEAVY_DEPENDENCIES import_and_require ''lib/a.js'' [] =
     Inr [report ''lib/a.js'' ''react'']"
    by code_simp
  have l': "4 < length (visited 0 import_and_require)" by code_simp
  have v1: "visited 0 import_and_require ! 1 = (import_declaration ''react'', 0)" by code_simp
  have v4: "visited 0 import_and_require ! 4 = (require_call ''react'', 0)" by code_simp
  have s: "top_level_site HEAVY_DEPENDENCIES (import_declaration ''react'') ''react''" by code_simp
  from duplicate_specifier_reported_once[OF c' _ l' v1 v4 s r]
  have two: "\<exists>ds. [report ''lib/a.js'' ''react''] = [] @ ds \<and>
           length (filter (\<lambda>d. message d = heavy_message ''react'') ds) = 1"
    by simp
  have n: "(2::nat) < 6" "(1::nat) < 4" by simp_all
  from n one two c l v2 v6 r c' l' v1 v4 s show ?thesis by blast
qed

text \<open>
  Claim C5 as worded fails.  A specifier that occurs twice at depth 0 in dynamic imports
  gets no diagnostic.  And when the walk throws, as on a call expression without a callee,
  two top-level \<^verbatim>\<open>require("react")\<close> get none either.
\<close>

theorem duplicate_specifier_counterexample:
  "visited 0 dynamic_twice ! 2 = (import_expression ''react'', 0) \<and>
   visited 0 dynamic_twice ! 5 = (import_expression ''react'', 0) \<and>
   isHeavyDependency HEAVY_DEPENDENCIES ''react'' \<and>
   checkLazyImportHeavyDeps HEAVY_DEPENDENCIES dynamic_twice ''lib/a.js'' [] = Inr [] \<and>
   visited 0 react_twice_then_broken ! 2 = (require_call ''react'', 0) \<and>
   visited 0 react_twice_then_broken ! 6 = (require_call ''react'', 0) \<and>
   checkLazyImportHeavyDeps HEAVY_DEPENDENCIES react_twice_then_broken ''lib/a.js'' [] =
     Inl TypeError"
  by code_simp

section \<open>The depth counter\<close>

lemma depth_writes_ge:
  "\<forall>v\<in>set (depth_writes H st node). currentDepth st \<le> v"
  "\<forall>v\<in>set (depth_writesAll H st cs). currentDepth st \<le> v"
proof (induction H st node and H st cs rule: walkNode_walkAll.induct)
  case (1 H st node)
  show ?case
  proof (cases "\<not> truthy node \<or> \<not> typeof_object node")
    case True
    then show ?thesis by (simp add: depth_writes.simps)
  next
    case False
    show ?thesis
    proof (cases "classify H node st")
      case (Inl e)
      with False show ?thesis by (simp add: depth_writes.simps)
    next
      case (Inr st1)
      let ?st2 = "if isFunctionNode node then st1\<lparr>currentDepth := currentDepth st1 + 1\<rparr> else st1"
      have d1: "currentDepth st1 = currentDepth st"
        using classify_Inr[OF Inr] by simp
      have ih: "\<forall>v\<in>set (depth_writesAll H ?st2 (walk_targets node)). currentDepth ?st2 \<le> v"
        by (rule "1.IH"[OF False Inr])
      have last: "currentDepth st3 = currentDepth ?st2"
        if "walkAll H ?st2 (walk_targets node) = Inr st3" for st3
        using walk_Inr(2)[OF that] by simp
      have eq: "depth_writes H st node =
          (if isFunctionNode node then [currentDepth st1 + 1] else []) @
          depth_writesAll H ?st2 (walk_targets node) @
          (case walkAll H ?st2 (walk_targets node) of
             Inl e \<Rightarrow> []
           | Inr st3 \<Rightarrow> if isFunctionNode node then [currentDepth st3 - 1] else [])"
        using False Inr by (simp add: depth_writes.simps)
      have a: "\<forall>v\<in>set (if isFunctionNode node then [currentDepth st1 + 1] else []).
                 currentDepth st \<le> v"
        using d1 by simp
      have "currentDepth st \<le> currentDepth ?st2"
        using d1 by simp
      with ih have b: "\<forall>v\<in>set (depth_writesAll H ?st2 (walk_targets node)). currentDepth st \<le> v"
        by fastforce
      have c: "\<forall>v\<in>set (case walkAll H ?st2 (walk_targets node) of
                          Inl e \<Rightarrow> []
                        | Inr st3 \<Rightarrow> if isFunctionNode node then [currentDepth st3 - 1] else []).
                 currentDepth st \<le> v"
      proof (cases "walkAll H ?st2 (walk_targets node)")
        case (Inl e)
        then show ?thesis by simp
      next
        case (Inr st3)
        from last[OF Inr] d1 have "isFunctionNode node \<Longrightarrow> currentDepth st3 - 1 = currentDepth st"
          by simp
        with Inr show ?thesis by simp
      qed
      show ?thesis
        unfolding eq using a b c by (simp add: ball_Un)
    qed
  qed
next
  case (2 H st)
  show ?case by simp
next
  case (3 H st c cs)
  show ?case
  proof (cases "walkNode H st c")
    case (Inl e)
    with "3.IH"(1) show ?thesis by simp
  next
    case (Inr st1)
    have "currentDepth st1 = currentDepth st" using walk_Inr(1)[OF Inr] by simp
    with "3.IH"(1) "3.IH"(2)[OF Inr] Inr show ?thesis by auto
  qed
qed

text \<open>
  Claim C3.  In the walk that \<^verbatim>\<open>checkLazyImportHeavyDeps\<close> starts, with
  \<^verbatim>\<open>currentDepth\<close> at 0, the counter is never negative: neither its initial value nor
  any value written to it by an increment or a decrement, whether the walk returns or
  throws.  When the walk returns, the counter is 0 again.
\<close>

theorem depth_never_negative_and_balanced:
  "(\<forall>v\<in>set (currentDepth initial_walk_state # depth_writes H initial_walk_state ast). 0 \<le> v) \<and>
   (\<forall>st'. walkNode H initial_walk_state ast = Inr st' \<longrightarrow> currentDepth st' = 0)"
proof -
  have "\<forall>v\<in>set (depth_writes H initial_walk_state ast). 0 \<le> v"
    using depth_writes_ge(1)[of H initial_walk_state ast] by (simp add: initial_walk_state_def)
  moreover have "currentDepth st' = 0" if "walkNode H initial_walk_state ast = Inr st'" for st'
    using walk_Inr(1)[OF that] by (simp add: initial_walk_state_def)
  ultimately show ?thesis by (simp add: initial_walk_state_def)
qed

theorem depth_never_negative_and_balanced_witness:
  "depth_writes HEAVY_DEPENDENCIES initial_walk_state nested_require = [1, 0] \<and>
   walkNode HEAVY_DEPENDENCIES initial_walk_state nested_require =
     Inr \<lparr>topLevelImports = [], lazyImports = [''webpack''], currentDepth = 0\<rparr> \<and>
   (0::int) \<le> 1"
proof -
  have w: "depth_writes HEAVY_DEPENDENCIES initial_walk_state nested_require = [1, 0]"
    by code_simp
  have r: "walkNode HEAVY_DEPENDENCIES initial_walk_state nested_require =
     Inr \<lparr>topLevelImports = [], lazyImports = [''webpack''], currentDepth = 0\<rparr>"
    by code_simp
  from depth_never_negative_and_balanced[of HEAVY_DEPENDENCIES nested_require] w
  have "(0::int) \<le> 1" by simp
  with w r show ?thesis by simp
qed

section \<open>Dynamic imports\<close>

lemma dynamic_import_not_top_level:
  assumes "imports_dynamically n s"
    and "get (read_prop n ''callee'') ''name'' \<noteq> Inr (Str ''require'')"
  shows "\<not> top_level_site H n s'"
  using assms
  by (auto simp: top_level_site_def imports_dynamically_def imports_statically_def
      requires_literal_def)

text \<open>
  Claim C4, as the source has it.  Let the check of a tree return normally, and let the
  walk visit, at any depth, 0 included, a call expression whose callee is an
  \<^verbatim>\<open>Import\<close> node not named \<^verbatim>\<open>require\<close> and whose first argument is the literal
  string \<open>s\<close>.  Then the node yields no diagnostic: the diagnostics added for the file
  are one for each specifier that the other nodes visited at depth 0 import.  And \<open>s\<close> is
  in \<^verbatim>\<open>lazyImports\<close> after the walk exactly when \<open>s\<close> is heavy.
\<close>

theorem dynamic_import_call_is_lazy:
  assumes "checkLazyImportHeavyDeps H ast filePath errs = Inr errs'"
    and "(n, d) \<in> set (visited 0 ast)"
    and "imports_dynamically n s"
    and "get (read_prop n ''callee'') ''name'' \<noteq> Inr (Str ''require'')"
  shows "(\<exists>top. errs' = errs @ map (report filePath) top \<and> distinct top \<and>
            set top = {s'. \<exists>m. (m, 0) \<in> set (visited 0 ast) \<and> m \<noteq> n \<and> top_level_site H m s'}) \<and>
         (\<exists>st. walkNode H initial_walk_state ast = Inr st \<and>
            (s \<in> set (lazyImports st) \<longleftrightarrow> isHeavyDependency H s))"
proof -
  have nt: "\<not> top_level_site H n s'" for s'
    using assms(3,4) by (rule dynamic_import_not_top_level)
  from checkLazyImportHeavyDeps_Inr[OF assms(1)]
  obtain top where e: "errs' = errs @ map (report filePath) top"
    and dt: "distinct top"
    and t: "set top = {s'. \<exists>m. (m, 0) \<in> set (visited 0 ast) \<and> top_level_site H m s'}"
    by blast
  from t nt have "set top = {s'. \<exists>m. (m, 0) \<in> set (visited 0 ast) \<and> m \<noteq> n \<and> top_level_site H m s'}"
    by auto
  with e dt have first: "\<exists>top. errs' = errs @ map (report filePath) top \<and> distinct top \<and>
            set top = {s'. \<exists>m. (m, 0) \<in> set (visited 0 ast) \<and> m \<noteq> n \<and> top_level_site H m s'}"
    by blast
  from assms(1) obtain st where w: "walkNode H initial_walk_state ast = Inr st"
    by (auto simp: checkLazyImportHeavyDeps_def split: sum.splits)
  from walk_lazy(1)[OF w]
  have l: "set (lazyImports st) =
      {s. \<exists>n d. (n, d) \<in> set (visited 0 ast) \<and> lazy_site H d n s}"
    by (simp add: initial_walk_state_def)
  have "s \<in> set (lazyImports st) \<longleftrightarrow> isHeavyDependency H s"
  proof
    assume "s \<in> set (lazyImports st)"
    with l show "isHeavyDependency H s" by (auto simp: lazy_site_def)
  next
    assume "isHeavyDependency H s"
    with assms(3) have "lazy_site H d n s" by (simp add: lazy_site_def)
    with assms(2) l show "s \<in> set (lazyImports st)" by auto
  qed
  with w first show ?thesis by blast
qed

theorem dynamic_import_call_is_lazy_witness:
  "checkLazyImportHeavyDeps HEAVY_DEPENDENCIES dynamic_import_at_top ''lib/a.js'' [] =
     Inr [report ''lib/a.js'' ''webpack''] \<and>
   (import_call ''lodash'', 0) \<in> set (visited 0 dynamic_import_at_top) \<and>
   imports_dynamically (import_call ''lodash'') ''lodash'' \<and>
   get (read_prop (import_call ''lodash'') ''callee'') ''name'' \<noteq> Inr (Str ''require'') \<and>
   walkNode HEAVY_DEPENDENCIES initial_walk_state dynamic_import_at_top =
     Inr \<lparr>topLevelImports = [''webpack''], lazyImports = [''lodash''], currentDepth = 0\<rparr> \<and>
   isHeavyDependency HEAVY_DEPENDENCIES ''lodash''"
proof -
  have c: "checkLazyImportHeavyDeps HEAVY_DEPENDENCIES dynamic_import_at_top ''lib/a.js'' [] =
     Inr [report ''lib/a.js'' ''webpack'']"
    by code_simp
  have v: "(import_call ''lodash'', 0) \<in> set (visited 0 dynamic_import_at_top)"
    by code_simp
  have i: "imports_dynamically (import_call ''lodash'') ''lodash''"
    by code_simp
  have nm: "get (read_prop (import_call ''lodash'') ''callee'') ''name'' \<noteq> Inr (Str ''require'')"
    by code_simp
  have w: "walkNode HEAVY_DEPENDENCIES initial_walk_state dynamic_import_at_top =
     Inr \<lparr>topLevelImports = [''webpack''], lazyImports = [''lodash''], currentDepth = 0\<rparr>"
    by code_simp
  from dynamic_import_call_is_lazy[OF c v i nm] w
  have "isHeavyDependency HEAVY_DEPENDENCIES ''lodash''"
    by auto
  with c v i nm w show ?thesis by blast
qed

text \<open>
  Claim C4 as worded fails.  The two call branches are tested one after the other: a call
  whose callee is an \<^verbatim>\<open>Import\<close> node and is also named \<^verbatim>\<open>require\<close> goes to
  \<^verbatim>\<open>topLevelImports\<close> at depth 0 and gets a diagnostic.  And \<^verbatim>\<open>import("lodash")\<close> as
  acorn parses it is not a call expression and is not added to \<^verbatim>\<open>lazyImports\<close>.
\<close>

theorem dynamic_import_call_counterexample:
  "(require_named_import_call ''lodash'', 0) \<in> set (visited 0 only_require_named_import) \<and>
   imports_dynamically (require_named_import_call ''lodash'') ''lodash'' \<and>
   walkNode HEAVY_DEPENDENCIES initial_walk_state only_require_named_import =
     Inr \<lparr>topLevelImports = [''lodash''], lazyImports = [''lodash''], currentDepth = 0\<rparr> \<and>
   checkLazyImportHeavyDeps HEAVY_DEPENDENCIES only_require_named_import ''lib/a.js'' [] =
     Inr [report ''lib/a.js'' ''lodash''] \<and>
   isHeavyDependency HEAVY_DEPENDENCIES ''lodash'' \<and>
   walkNode HEAVY_DEPENDENCIES initial_walk_state only_import_expression =
     Inr \<lparr>topLevelImports = [], lazyImports = [], currentDepth = 0\<rparr>"
  by code_simp

text \<open>
  Claim C9.  Visiting a node whose type is neither \<^verbatim>\<open>ImportDeclaration\<close> nor
  \<^verbatim>\<open>CallExpression\<close> does not throw and changes neither set.  In particular the
  walk of \<^verbatim>\<open>import(s)\<close> as acorn parses it, an \<^verbatim>\<open>ImportExpression\<close> node with a
  literal source, records nothing at any depth.
\<close>

theorem other_node_types_record_nothing:
  "(read_prop node ''type'' \<noteq> Str ''ImportDeclaration'' \<and>
    read_prop node ''type'' \<noteq> Str ''CallExpression'' \<longrightarrow> classify H node st = Inr st) \<and>
   walkNode H st (import_expression s) = Inr st"
proof -
  have "classify H node st = Inr st"
    if "read_prop node ''type'' \<noteq> Str ''ImportDeclaration''"
      and "read_prop node ''type'' \<noteq> Str ''CallExpression''"
    using that by (simp add: classify_def import_declaration_step_def)
  moreover have "walkNode H st (import_expression s) = Inr st"
    by (simp add: walkNode.simps import_expression_def literal_def classify_def
        import_declaration_step_def isFunctionNode_def walk_targets_def child_targets_def)
  ultimately show ?thesis by blast
qed

theorem other_node_types_record_nothing_witness:
  "read_prop (import_expression ''lodash'') ''type'' \<noteq> Str ''ImportDeclaration'' \<and>
   read_prop (import_expression ''lodash'') ''type'' \<noteq> Str ''CallExpression'' \<and>
   classify HEAVY_DEPENDENCIES (import_expression ''lodash'') initial_walk_state =
     Inr initial_walk_state \<and>
   walkNode HEAVY_DEPENDENCIES initial_walk_state only_import_expression = Inr initial_walk_state"
proof -
  have a: "read_prop (import_expression ''lodash'') ''type'' \<noteq> Str ''ImportDeclaration''"
    by code_simp
  have b: "read_prop (import_expression ''lodash'') ''type'' \<noteq> Str ''CallExpression''"
    by code_simp
  have c: "walkNode HEAVY_DEPENDENCIES initial_walk_state only_import_expression = Inr initial_walk_state"
    by code_simp
  from other_node_types_record_nothing[of "import_expression ''lodash''" HEAVY_DEPENDENCIES
      initial_walk_state] a b
  have "classify HEAVY_DEPENDENCIES (import_expression ''lodash'') initial_walk_state =
     Inr initial_walk_state"
    by blast
  with a b c show ?thesis by blast
qed

section \<open>Termination of the walk and the call stack\<close>






















section \<open>The linter over a batch of files\<close>

lemma checkLazyImportHeavyDeps_append:
  "checkLazyImportHeavyDeps H ast f errs =
     (case checkLazyImportHeavyDeps H ast f [] of Inl e \<Rightarrow> Inl e | Inr ds \<Rightarrow> Inr (errs @ ds))"
  by (simp add: checkLazyImportHeavyDeps_def split: sum.splits)

lemma attempt_append:
  "attempt parse H opts f c errs =
     (case attempt parse H opts f c [] of Inl e \<Rightarrow> Inl e | Inr ds \<Rightarrow> Inr (errs @ ds))"
  using checkLazyImportHeavyDeps_append[of H _ f errs]
  by (simp add: attempt_def split: sum.splits)

lemma errors_lint:
  "errors (lint parse H L f c) = errors L @ errors (lint parse H new_linter f c)"
proof -
  have m: "attempt parse H module_options f c (errors L) =
     (case attempt parse H module_options f c [] of Inl e \<Rightarrow> Inl e | Inr ds \<Rightarrow> Inr (errors L @ ds))"
    by (rule attempt_append)
  have s: "attempt parse H script_options f c (errors L) =
     (case attempt parse H script_options f c [] of Inl e \<Rightarrow> Inl e | Inr ds \<Rightarrow> Inr (errors L @ ds))"
    by (rule attempt_append)
  show ?thesis
    unfolding lint_def m s by (simp add: new_linter_def split: sum.splits)
qed

lemma errors_lintFile:
  "errors (lintFile parse rd H L f) = errors L @ errors (lintFile parse rd H new_linter f)"
  using errors_lint[of parse H L f]
  by (simp add: lintFile_def new_linter_def split: sum.splits)

lemma errors_lintEach:
  "errors (lintEach parse rd H L fs) =
     errors L @ concat (map (\<lambda>f. errors (lintFile parse rd H new_linter f)) fs)"
proof (induction fs arbitrary: L)
  case Nil
  show ?case by (simp add: lintEach_def)
next
  case (Cons f fs)
  have "errors (lintEach parse rd H L (f # fs)) = errors (lintEach parse rd H (lintFile parse rd H L f) fs)"
    by (simp add: lintEach_def)
  also have "\<dots> = errors (lintFile parse rd H L f) @
       concat (map (\<lambda>f. errors (lintFile parse rd H new_linter f)) fs)"
    by (rule Cons.IH)
  also have "errors (lintFile parse rd H L f) = errors L @ errors (lintFile parse rd H new_linter f)"
    by (rule errors_lintFile)
  finally show ?case by simp
qed

lemma warned_lint: "set (warned L) \<subseteq> set (warned (lint parse H L f c))"
  by (auto simp: lint_def split: sum.splits)

lemma warned_lintFile: "set (warned L) \<subseteq> set (warned (lintFile parse rd H L f))"
  using warned_lint[of L parse H f] by (auto simp: lintFile_def split: sum.splits)

lemma warned_lintEach: "set (warned L) \<subseteq> set (warned (lintEach parse rd H L fs))"
proof (induction fs arbitrary: L)
  case Nil
  show ?case by (simp add: lintEach_def)
next
  case (Cons f fs)
  have "set (warned L) \<subseteq> set (warned (lintFile parse rd H L f))" by (rule warned_lintFile)
  also have "\<dots> \<subseteq> set (warned (lintEach parse rd H (lintFile parse rd H L f) fs))" by (rule Cons.IH)
  finally show ?case by (simp add: lintEach_def)
qed

lemma lintEach_append:
  "lintEach parse rd H L (xs @ f # ys) =
     lintEach parse rd H (lintFile parse rd H (lintEach parse rd H L xs) f) ys"
  by (simp add: lintEach_def)

text \<open>
  Claim C6.  Let a file be readable and let both parse attempts fail on its text.  Then
  \<^verbatim>\<open>lint\<close> leaves the linter as it was but for one warning, which names the file and the
  error of the second attempt.  In a batch, the diagnostics are those already accumulated,
  then those of the files before it, then those of the files after it, each file
  contributing what it contributes on its own; and the warning is among those logged.
\<close>

theorem unparsable_file_is_isolated:
  assumes "readFileSync f = Inr content"
    and "parse module_options content = Inl e1"
    and "parse script_options content = Inl e2"
  shows "lint parse H L f content = L\<lparr>warned := warned L @ [UnableToParse f e2]\<rparr> \<and>
         errors (lintEach parse readFileSync H L (before @ f # after)) =
           errors L @
           concat (map (\<lambda>g. errors (lintFile parse readFileSync H new_linter g)) before) @
           concat (map (\<lambda>g. errors (lintFile parse readFileSync H new_linter g)) after) \<and>
         UnableToParse f e2 \<in> set (warned (lintEach parse readFileSync H L (before @ f # after)))"
proof -
  have l: "lint parse H L' f content = L'\<lparr>warned := warned L' @ [UnableToParse f e2]\<rparr>" for L'
    using assms(2,3) by (simp add: lint_def attempt_def)
  then have lf: "lintFile parse readFileSync H L' f = L'\<lparr>warned := warned L' @ [UnableToParse f e2]\<rparr>" for L'
    using assms(1) by (simp add: lintFile_def)
  have "errors (lintFile parse readFileSync H new_linter f) = []"
    by (simp add: lf new_linter_def)
  then have e: "errors (lintEach parse readFileSync H L (before @ f # after)) =
           errors L @
           concat (map (\<lambda>g. errors (lintFile parse readFileSync H new_linter g)) before) @
           concat (map (\<lambda>g. errors (lintFile parse readFileSync H new_linter g)) after)"
    by (simp add: errors_lintEach)
  have "UnableToParse f e2 \<in> set (warned (lintFile parse readFileSync H
          (lintEach parse readFileSync H L before) f))"
    by (simp add: lf)
  then have w: "UnableToParse f e2 \<in> set (warned (lintEach parse readFileSync H L (before @ f # after)))"
    unfolding lintEach_append using warned_lintEach by blast
  from l e w show ?thesis by blast
qed

theorem unparsable_file_is_isolated_witness:
  "stub_files ''lib/b.js'' = Inr ''@@@'' \<and>
   stub_parser module_options ''@@@'' = Inl (SyntaxError ''Unexpected character'') \<and>
   stub_parser script_options ''@@@'' = Inl (SyntaxError ''Unexpected character'') \<and>
   lintEach stub_parser stub_files HEAVY_DEPENDENCIES new_linter
       [''lib/a.js'', ''lib/b.js'', ''lib/c.js''] =
     \<lparr>errors = [report ''lib/a.js'' ''webpack'', report ''lib/c.js'' ''webpack''],
      warned = [UnableToParse ''lib/b.js'' (SyntaxError ''Unexpected character'')]\<rparr> \<and>
   errors (lintEach stub_parser stub_files HEAVY_DEPENDENCIES new_linter
       ([''lib/a.js''] @ ''lib/b.js'' # [''lib/c.js''])) =
     errors new_linter @
     concat (map (\<lambda>g. errors (lintFile stub_parser stub_files HEAVY_DEPENDENCIES new_linter g)) [''lib/a.js'']) @
     concat (map (\<lambda>g. errors (lintFile stub_parser stub_files HEAVY_DEPENDENCIES new_linter g)) [''lib/c.js''])"
proof -
  have r: "stub_files ''lib/b.js'' = Inr ''@@@''" by code_simp
  have m: "stub_parser module_options ''@@@'' = Inl (SyntaxError ''Unexpected character'')"
    by code_simp
  have s: "stub_parser script_options ''@@@'' = Inl (SyntaxError ''Unexpected character'')"
    by code_simp
  have a: "lintEach stub_parser stub_files HEAVY_DEPENDENCIES new_linter
       [''lib/a.js'', ''lib/b.js'', ''lib/c.js''] =
     \<lparr>errors = [report ''lib/a.js'' ''webpack'', report ''lib/c.js'' ''webpack''],
      warned = [UnableToParse ''lib/b.js'' (SyntaxError ''Unexpected character'')]\<rparr>"
    by code_simp
  from unparsable_file_is_isolated[where readFileSync = stub_files and f = "''lib/b.js''"
      and content = "''@@@''" and parse = stub_parser and H = HEAVY_DEPENDENCIES and L = new_linter
      and before = "[''lib/a.js'']" and after = "[''lib/c.js'']", OF r m s]
  have "errors (lintEach stub_parser stub_files HEAVY_DEPENDENCIES new_linter
       ([''lib/a.js''] @ ''lib/b.js'' # [''lib/c.js''])) =
     errors new_linter @
     concat (map (\<lambda>g. errors (lintFile stub_parser stub_files HEAVY_DEPENDENCIES new_linter g)) [''lib/a.js'']) @
     concat (map (\<lambda>g. errors (lintFile stub_parser stub_files HEAVY_DEPENDENCIES new_linter g)) [''lib/c.js''])"
    by blast
  with r m s a show ?thesis by blast
qed

text \<open>
  Claim C7, as the source has it.  The second option object is the first with the source
  type set to script and without \<^verbatim>\<open>allowImportExportEverywhere\<close>; both set
  \<^verbatim>\<open>allowReturnOutsideFunction\<close>, so the two attempts ask the parser for the same
  treatment of a top-level \<^verbatim>\<open>return\<close>.  Whatever the parser answers: when the module attempt
  (parse and check) returns, \<^verbatim>\<open>lint\<close> takes its diagnostics and logs nothing, and the
  result does not depend on what the parser would say under the script options; when the
  module attempt throws, the result is that of the script attempt, its diagnostics or a
  warning with its error; and nothing is logged exactly when one of the two attempts
  returns.  For a text that the parser accepts or rejects according to
  \<^verbatim>\<open>allowReturnOutsideFunction\<close> alone, the script attempt cannot succeed where the
  module parse has failed: the script parse fails too and the failure is logged.
\<close>

theorem lint_tries_module_first:
  "script_options = module_options\<lparr>sourceType := Script, allowImportExportEverywhere := False\<rparr> \<and>
   allowReturnOutsideFunction module_options \<and>
   allowReturnOutsideFunction script_options \<and>
   (attempt parse H module_options f c (errors L) = Inr errs \<longrightarrow>
      (\<forall>parse'. parse' module_options c = parse module_options c \<longrightarrow>
         lint parse' H L f c = L\<lparr>errors := errs\<rparr>)) \<and>
   (attempt parse H module_options f c (errors L) = Inl e \<longrightarrow>
      lint parse H L f c =
        (case attempt parse H script_options f c (errors L) of
           Inr errs \<Rightarrow> L\<lparr>errors := errs\<rparr>
         | Inl e2 \<Rightarrow> L\<lparr>warned := warned L @ [UnableToParse f e2]\<rparr>)) \<and>
   (warned (lint parse H L f c) = warned L \<longleftrightarrow>
      (\<exists>errs. attempt parse H module_options f c (errors L) = Inr errs) \<or>
      (\<exists>errs. attempt parse H script_options f c (errors L) = Inr errs)) \<and>
   ((\<forall>o1 o2. allowReturnOutsideFunction o1 = allowReturnOutsideFunction o2 \<longrightarrow>
        ((\<exists>x. parse o1 c = Inl x) \<longleftrightarrow> (\<exists>x. parse o2 c = Inl x))) \<and>
    parse module_options c = Inl e1 \<longrightarrow>
      (\<exists>e2. parse script_options c = Inl e2 \<and>
         lint parse H L f c = L\<lparr>warned := warned L @ [UnableToParse f e2]\<rparr>))"
proof -
  have o: "script_options = module_options\<lparr>sourceType := Script, allowImportExportEverywhere := False\<rparr>"
    by (simp add: module_options_def script_options_def)
  have a: "allowReturnOutsideFunction module_options" "allowReturnOutsideFunction script_options"
    by (simp_all add: module_options_def script_options_def)
  have m: "lint parse' H L f c = L\<lparr>errors := errs\<rparr>"
    if "attempt parse H module_options f c (errors L) = Inr errs"
      and "parse' module_options c = parse module_options c" for parse'
  proof -
    from that have "attempt parse' H module_options f c (errors L) = Inr errs"
      by (simp add: attempt_def)
    then show ?thesis by (simp add: lint_def)
  qed
  have s: "lint parse H L f c =
        (case attempt parse H script_options f c (errors L) of
           Inr errs \<Rightarrow> L\<lparr>errors := errs\<rparr>
         | Inl e2 \<Rightarrow> L\<lparr>warned := warned L @ [UnableToParse f e2]\<rparr>)"
    if "attempt parse H module_options f c (errors L) = Inl e"
    using that by (simp add: lint_def)
  have w: "warned (lint parse H L f c) = warned L \<longleftrightarrow>
      (\<exists>errs. attempt parse H module_options f c (errors L) = Inr errs) \<or>
      (\<exists>errs. attempt parse H script_options f c (errors L) = Inr errs)"
    by (cases "attempt parse H module_options f c (errors L)";
        cases "attempt parse H script_options f c (errors L)")
       (simp_all add: lint_def)
  have r: "\<exists>e2. parse script_options c = Inl e2 \<and>
         lint parse H L f c = L\<lparr>warned := warned L @ [UnableToParse f e2]\<rparr>"
    if p: "\<forall>o1 o2. allowReturnOutsideFunction o1 = allowReturnOutsideFunction o2 \<longrightarrow>
        ((\<exists>x. parse o1 c = Inl x) \<longleftrightarrow> (\<exists>x. parse o2 c = Inl x))"
      and f1: "parse module_options c = Inl e1"
  proof -
    from a have "allowReturnOutsideFunction module_options = allowReturnOutsideFunction script_options"
      by simp
    with p have "(\<exists>x. parse module_options c = Inl x) \<longleftrightarrow> (\<exists>x. parse script_options c = Inl x)"
      by blast
    with f1 obtain e2 where f2: "parse script_options c = Inl e2" by blast
    from f1 f2 have "lint parse H L f c = L\<lparr>warned := warned L @ [UnableToParse f e2]\<rparr>"
      by (simp add: lint_def attempt_def)
    with f2 show ?thesis by blast
  qed
  from o a m s w r show ?thesis by blast
qed

theorem lint_tries_module_first_witness:
  "attempt stub_parser HEAVY_DEPENDENCIES module_options ''lib/a.js'' ''return;'' (errors new_linter) = Inr [] \<and>
   lint (\<lambda>opts content. if sourceType opts = Script then Inl (SyntaxError ''never asked'')
                         else stub_parser opts content)
        HEAVY_DEPENDENCIES new_linter ''lib/a.js'' ''return;'' = new_linter\<lparr>errors := []\<rparr> \<and>
   attempt stub_parser HEAVY_DEPENDENCIES module_options ''lib/a.js'' ''delete x;'' (errors new_linter) =
     Inl (SyntaxError ''Deleting local variable in strict mode'') \<and>
   attempt stub_parser HEAVY_DEPENDENCIES script_options ''lib/a.js'' ''delete x;'' (errors new_linter) = Inr [] \<and>
   lint stub_parser HEAVY_DEPENDENCIES new_linter ''lib/a.js'' ''delete x;'' = new_linter\<lparr>errors := []\<rparr> \<and>
   attempt stub_parser HEAVY_DEPENDENCIES module_options ''lib/a.js'' ''@@@'' (errors new_linter) =
     Inl (SyntaxError ''Unexpected character'') \<and>
   attempt stub_parser HEAVY_DEPENDENCIES script_options ''lib/a.js'' ''@@@'' (errors new_linter) =
     Inl (SyntaxError ''Unexpected character'') \<and>
   lint stub_parser HEAVY_DEPENDENCIES new_linter ''lib/a.js'' ''@@@'' =
     new_linter\<lparr>warned := warned new_linter @
        [UnableToParse ''lib/a.js'' (SyntaxError ''Unexpected character'')]\<rparr> \<and>
   stub_parser module_options ''@@@'' = Inl (SyntaxError ''Unexpected character'') \<and>
   (\<exists>e2. stub_parser script_options ''@@@'' = Inl e2 \<and>
      lint stub_parser HEAVY_DEPENDENCIES new_linter ''lib/b.js'' ''@@@'' =
        new_linter\<lparr>warned := warned new_linter @ [UnableToParse ''lib/b.js'' e2]\<rparr>)"
proof -
  let ?other = "\<lambda>opts content. if sourceType opts = Script then Inl (SyntaxError ''never asked'')
                         else stub_parser opts content"
  have a: "attempt stub_parser HEAVY_DEPENDENCIES module_options ''lib/a.js'' ''return;'' (errors new_linter) = Inr []"
    by code_simp
  have same: "?other module_options ''return;'' = stub_parser module_options ''return;''"
    by (simp add: module_options_def)
  have b: "attempt stub_parser HEAVY_DEPENDENCIES module_options ''lib/a.js'' ''delete x;'' (errors new_linter) =
     Inl (SyntaxError ''Deleting local variable in strict mode'')"
    by code_simp
  have c: "attempt stub_parser HEAVY_DEPENDENCIES script_options ''lib/a.js'' ''delete x;'' (errors new_linter) = Inr []"
    by code_simp
  have g1: "attempt stub_parser HEAVY_DEPENDENCIES module_options ''lib/a.js'' ''@@@'' (errors new_linter) =
     Inl (SyntaxError ''Unexpected character'')"
    by code_simp
  have g2: "attempt stub_parser HEAVY_DEPENDENCIES script_options ''lib/a.js'' ''@@@'' (errors new_linter) =
     Inl (SyntaxError ''Unexpected character'')"
    by code_simp
  from lint_tries_module_first[of stub_parser HEAVY_DEPENDENCIES "''lib/a.js''" "''return;''" new_linter "[]"] a
  have "\<forall>parse'. parse' module_options ''return;'' = stub_parser module_options ''return;'' \<longrightarrow>
          lint parse' HEAVY_DEPENDENCIES new_linter ''lib/a.js'' ''return;'' = new_linter\<lparr>errors := []\<rparr>"
    by blast
  then have "?other module_options ''return;'' = stub_parser module_options ''return;'' \<longrightarrow>
          lint ?other HEAVY_DEPENDENCIES new_linter ''lib/a.js'' ''return;'' = new_linter\<lparr>errors := []\<rparr>"
    by (rule spec)
  with same
  have d: "lint ?other HEAVY_DEPENDENCIES new_linter ''lib/a.js'' ''return;'' = new_linter\<lparr>errors := []\<rparr>"
    by (rule rev_mp)
  from lint_tries_module_first[of stub_parser HEAVY_DEPENDENCIES "''lib/a.js''" "''delete x;''" new_linter _
      "SyntaxError ''Deleting local variable in strict mode''"] b c
  have e: "lint stub_parser HEAVY_DEPENDENCIES new_linter ''lib/a.js'' ''delete x;'' = new_linter\<lparr>errors := []\<rparr>"
    by simp
  from lint_tries_module_first[of stub_parser HEAVY_DEPENDENCIES "''lib/a.js''" "''@@@''" new_linter _
      "SyntaxError ''Unexpected character''"] g1 g2
  have g: "lint stub_parser HEAVY_DEPENDENCIES new_linter ''lib/a.js'' ''@@@'' =
     new_linter\<lparr>warned := warned new_linter @
        [UnableToParse ''lib/a.js'' (SyntaxError ''Unexpected character'')]\<rparr>"
    by simp
  have p: "\<forall>o1 o2. allowReturnOutsideFunction o1 = allowReturnOutsideFunction o2 \<longrightarrow>
        ((\<exists>x. stub_parser o1 ''@@@'' = Inl x) \<longleftrightarrow> (\<exists>x. stub_parser o2 ''@@@'' = Inl x))"
    by (simp add: stub_parser_def require_webpack_text_def)
  have f1: "stub_parser module_options ''@@@'' = Inl (SyntaxError ''Unexpected character'')"
    by code_simp
  from lint_tries_module_first[of stub_parser HEAVY_DEPENDENCIES "''lib/b.js''" "''@@@''" new_linter _ _
      "SyntaxError ''Unexpected character''"] p f1
  have h: "\<exists>e2. stub_parser script_options ''@@@'' = Inl e2 \<and>
      lint stub_parser HEAVY_DEPENDENCIES new_linter ''lib/b.js'' ''@@@'' =
        new_linter\<lparr>warned := warned new_linter @ [UnableToParse ''lib/b.js'' e2]\<rparr>"
    by blast
  from a d b c e g1 g2 g f1 h show ?thesis by blast
qed

text \<open>
  Claim C7 as worded fails: on a text with a top-level \<^verbatim>\<open>return\<close> the module attempt,
  which also allows it, does not fail; the analysis succeeds by the first attempt and
  gives the same result with a parser that refuses every script.
\<close>

theorem top_level_return_parses_first_counterexample:
  "allowReturnOutsideFunction module_options \<and>
   stub_parser module_options ''return;'' = Inr (program [return_statement]) \<and>
   lint stub_parser HEAVY_DEPENDENCIES new_linter ''lib/a.js'' ''return;'' = new_linter \<and>
   lint (\<lambda>opts content. if sourceType opts = Script then Inl (SyntaxError ''never asked'')
                         else stub_parser opts content)
        HEAVY_DEPENDENCIES new_linter ''lib/a.js'' ''return;'' = new_linter"
  by code_simp

section \<open>The list of heavy dependencies\<close>





end
